theory Spec2Isabelle
  imports Complex_Main "HOL-Library.AList" "HOL-Library.Sublist" "HOL-Library.List_Lexorder"
    "HOL-Library.Char_ord" "HOL-Library.Log_Nat"
begin

section \<open>Errors, loops and arrays\<close>

text \<open>
  Exceptions are values: a function that can raise returns \<open>error + 'a\<close>, with
  \<open>Inl\<close> the exception. \<open>ValidationError\<close> is pydantic's (a \<^verbatim>\<open>ValueError\<close> raised
  by a field validator surfaces as one).
\<close>

datatype error =
  IndexError | KeyError | TypeError | ValueError | OverflowError | ValidationError

text \<open>A \<^verbatim>\<open>for\<close> loop over a list whose body updates a state and may raise.\<close>

fun for_each :: "'a list \<Rightarrow> ('a \<Rightarrow> 's \<Rightarrow> error + 's) \<Rightarrow> 's \<Rightarrow> error + 's" where
  "for_each [] body s = Inr s"
| "for_each (x # xs) body s =
     (case body x s of Inl e \<Rightarrow> Inl e | Inr s' \<Rightarrow> for_each xs body s')"

text \<open>
  Item assignment \<^verbatim>\<open>xs[k] = v\<close> on a one-dimensional array of fixed length: a negative
  index counts from the end, anything out of range raises \<^verbatim>\<open>IndexError\<close>.
\<close>

definition py_setitem :: "'a list \<Rightarrow> int \<Rightarrow> 'a \<Rightarrow> error + 'a list" where
  "py_setitem xs k v =
     (let n = int (length xs) in
      if 0 \<le> k \<and> k < n then Inr (xs[nat k := v])
      else if - n \<le> k \<and> k < 0 then Inr (xs[nat (n + k) := v])
      else Inl IndexError)"

text \<open>
  A Python \<^verbatim>\<open>dict\<close> is the list of its items in insertion order; \<^verbatim>\<open>d[k]\<close> raises
  \<^verbatim>\<open>KeyError\<close> for a missing key.
\<close>

definition dict_get :: "('k \<times> 'v) list \<Rightarrow> 'k \<Rightarrow> error + 'v" where
  "dict_get d k = (case map_of d k of None \<Rightarrow> Inl KeyError | Some v \<Rightarrow> Inr v)"

text \<open>
  A two-dimensional numpy array of floats: its shape and its rows. The shape is kept
  apart from the rows because an array of shape \<open>(0, k)\<close> has no row to read \<open>k\<close> from.
  Floats are modelled as reals.
\<close>

record ndarray =
  nrows :: nat
  ncols :: nat
  rows :: "real list list"

definition wf_ndarray :: "ndarray \<Rightarrow> bool" where
  "wf_ndarray a \<longleftrightarrow> length (rows a) = nrows a \<and> list_all (\<lambda>r. length r = ncols a) (rows a)"

definition np_zeros :: "nat \<Rightarrow> nat \<Rightarrow> ndarray" where
  "np_zeros r c = \<lparr>nrows = r, ncols = c, rows = replicate r (replicate c 0)\<rparr>"

text \<open>\<^verbatim>\<open>a[i, j] = x\<close> for non-negative \<open>i\<close>, \<open>j\<close>.\<close>

definition np_set :: "ndarray \<Rightarrow> nat \<Rightarrow> nat \<Rightarrow> real \<Rightarrow> error + ndarray" where
  "np_set a i j x =
     (if i < nrows a \<and> j < ncols a
      then Inr (a\<lparr>rows := (rows a)[i := (rows a ! i)[j := x]]\<rparr>)
      else Inl IndexError)"

text \<open>\<^verbatim>\<open>a.T\<close>\<close>

definition np_transpose :: "ndarray \<Rightarrow> ndarray" where
  "np_transpose a =
     \<lparr>nrows = ncols a, ncols = nrows a,
      rows = map (\<lambda>j. map (\<lambda>r. r ! j) (rows a)) [0 ..< ncols a]\<rparr>"

text \<open>
  \<^verbatim>\<open>a += b\<close> for arrays of one shape. (numpy would also broadcast an axis of length 1;
  the only use below adds a square array and its transpose.)
\<close>

definition np_iadd :: "ndarray \<Rightarrow> ndarray \<Rightarrow> error + ndarray" where
  "np_iadd a b =
     (if nrows a = nrows b \<and> ncols a = ncols b
      then Inr (a\<lparr>rows := map2 (map2 (+)) (rows a) (rows b)\<rparr>)
      else Inl ValueError)"

section \<open>Pairwise distance engine: the triangular work-item index\<close>

text \<open>
  \<^verbatim>\<open>calc_proximity_matrix\<close> (compress_and_compare_voyages.py) numbers the pairs
  \<open>(i, j)\<close>, \<open>i < j\<close>, of a corpus of \<open>n_voyages\<close> voyages:
  \<^verbatim>\<open>flat_index = n_voyages * i - int(i * (i + 1) / 2) + j - i - 1\<close> and
  \<^verbatim>\<open>number_combinations = int(n_voyages * (n_voyages - 1) / 2)\<close>.
  Python's integers are unbounded, so they are \<open>int\<close> here; but \<^verbatim>\<open>/\<close> is the true division,
  whose result is a float: the quotient rounded to the nearest number with 53 significant
  bits, the even one of two that are equally near, and \<^verbatim>\<open>OverflowError\<close> when that is
  beyond the range of a float. \<^verbatim>\<open>int(...)\<close> then cuts the fraction off.
\<close>

text \<open>The integer nearest to \<open>a / m\<close> for \<open>m > 0\<close>, the even one of two that are equally near.\<close>

definition round_half_even :: "int \<Rightarrow> int \<Rightarrow> int" where
  "round_half_even a m =
     (let q = a div m; r = a mod m
      in if 2 * r < m then q
         else if m < 2 * r then q + 1
         else if even q then q else q + 1)"

text \<open>
  \<^verbatim>\<open>int(x / 2)\<close> for an integer \<open>x\<close>. Below \<open>2\<^sup>5\<^sup>3\<close> in absolute value the half of \<open>x\<close> is a
  float and only the cut towards zero happens. From there on the half of \<open>x\<close> lies
  between \<open>2\<^sup>l\<^sup>-\<^sup>2\<close> and \<open>2\<^sup>l\<^sup>-\<^sup>1\<close>, where \<open>l\<close> is the number of bits of \<open>x\<close>, so the floats around
  it are the multiples of \<open>2\<^sup>l\<^sup>-\<^sup>5\<^sup>4\<close>, and they are integers.
\<close>

definition int_of_half :: "int \<Rightarrow> error + int" where
  "int_of_half x =
     (if \<bar>x\<bar> < 2 ^ 53 then Inr (sgn x * (\<bar>x\<bar> div 2))
      else (let m = 2 ^ nat (bitlen \<bar>x\<bar> - 53);
                y = round_half_even x m * (m div 2)
            in if 2 ^ 1024 \<le> \<bar>y\<bar> then Inl OverflowError else Inr y))"

definition flat_index :: "int \<Rightarrow> int \<Rightarrow> int \<Rightarrow> error + int" where
  "flat_index n_voyages i j =
     (case int_of_half (i * (i + 1)) of Inl e \<Rightarrow> Inl e
      | Inr h \<Rightarrow> Inr (n_voyages * i - h + j - i - 1))"

definition number_combinations :: "int \<Rightarrow> error + int" where
  "number_combinations n_voyages = int_of_half (n_voyages * (n_voyages - 1))"

section \<open>Pairwise distance engine: \<^verbatim>\<open>calc_proximity_matrix\<close>\<close>

text \<open>
  The dynamic-time-warping distance \<^verbatim>\<open>dtw(a, b, distance_only=True).distance\<close> is the
  \<^verbatim>\<open>dtw\<close> package's: it is a parameter \<open>dtw\<close> of the model, and it may raise.
\<close>

definition proximity_parallel ::
  "('v \<Rightarrow> 'v \<Rightarrow> error + real) \<Rightarrow> nat \<Rightarrow> nat \<Rightarrow> 'v \<Rightarrow> 'v \<Rightarrow> error + (nat \<times> nat \<times> real)" where
  "proximity_parallel dtw i j i_coords j_coords =
     (case dtw i_coords j_coords of Inl e \<Rightarrow> Inl e | Inr d \<Rightarrow> Inr (i, j, d))"

text \<open>
  \<^verbatim>\<open>pool.starmap(f, inputs)\<close>: the results in the order of the inputs, whatever order
  the workers finish in. A slot of \<^verbatim>\<open>inputs\<close> that was never assigned still holds
  \<^verbatim>\<open>None\<close> (\<^verbatim>\<open>np.empty(..., dtype=object)\<close>), which cannot be unpacked.
\<close>

fun starmap ::
  "('a \<Rightarrow> 'b \<Rightarrow> 'c \<Rightarrow> 'd \<Rightarrow> error + 'r) \<Rightarrow> ('a \<times> 'b \<times> 'c \<times> 'd) option list \<Rightarrow> error + 'r list" where
  "starmap f [] = Inr []"
| "starmap f (None # xs) = Inl TypeError"
| "starmap f (Some (a, b, c, d) # xs) =
     (case f a b c d of Inl e \<Rightarrow> Inl e
      | Inr r \<Rightarrow> (case starmap f xs of Inl e \<Rightarrow> Inl e | Inr rs \<Rightarrow> Inr (r # rs)))"

text \<open>
  Lines 119--135: the array of work items, one per pair. (\<^verbatim>\<open>np.empty\<close> raises \<^verbatim>\<open>ValueError\<close>
  for a negative length.)
\<close>

definition create_inputs ::
  "('k \<times> 'v) list \<Rightarrow> error + (nat \<times> nat \<times> 'v \<times> 'v) option list" where
  "create_inputs compressed_voyages =
     (let n_voyages = length compressed_voyages;
          voyages = map fst compressed_voyages
      in case number_combinations (int n_voyages) of Inl e \<Rightarrow> Inl e
         | Inr combinations \<Rightarrow>
           if combinations < 0 then Inl ValueError
           else
             (let inputs = replicate (nat combinations) None
              in for_each [0 ..< n_voyages - 1] (\<lambda>i.
                   for_each [i + 1 ..< n_voyages] (\<lambda>j inputs.
                     case flat_index (int n_voyages) (int i) (int j) of Inl e \<Rightarrow> Inl e
                     | Inr index \<Rightarrow>
                     (case dict_get compressed_voyages (voyages ! i) of Inl e \<Rightarrow> Inl e
                      | Inr i_coords \<Rightarrow>
                      (case dict_get compressed_voyages (voyages ! j) of Inl e \<Rightarrow> Inl e
                       | Inr j_coords \<Rightarrow>
                         py_setitem inputs index (Some (i, j, i_coords, j_coords)))))) inputs))"

text \<open>
  The whole function. With a \<open>name\<close> other than \<^verbatim>\<open>"__main__"\<close> the body of the
  \<^verbatim>\<open>if\<close> is skipped and the function returns \<^verbatim>\<open>None\<close>.
\<close>

definition calc_proximity_matrix ::
  "('v \<Rightarrow> 'v \<Rightarrow> error + real) \<Rightarrow> ('k \<times> 'v) list \<Rightarrow> string \<Rightarrow> error + ndarray option" where
  "calc_proximity_matrix dtw compressed_voyages name =
     (if name = ''__main__'' then
        (let n_voyages = length compressed_voyages in
         case create_inputs compressed_voyages of Inl e \<Rightarrow> Inl e
         | Inr inputs \<Rightarrow>
         (case starmap (proximity_parallel dtw) inputs of Inl e \<Rightarrow> Inl e
          | Inr result \<Rightarrow>
          (case for_each result (\<lambda>(i, j, d) distances. np_set distances i j d)
                  (np_zeros n_voyages n_voyages) of Inl e \<Rightarrow> Inl e
           | Inr distances \<Rightarrow>
           (case np_iadd distances (np_transpose distances) of Inl e \<Rightarrow> Inl e
            | Inr distances' \<Rightarrow> Inr (Some distances')))))
      else Inr None)"

section \<open>Density clustering\<close>

text \<open>
  Modelled from the spec: \<^verbatim>\<open>DBSCAN\<close> is scikit-learn's class, which is not among the
  repository's sources. Section 4.3 of the specification describes it: a point is dense
  when at least \<open>min_points\<close> points (itself included) lie within \<open>epsilon\<close> of it; a
  cluster is a dense point with everything that chains of dense points reach from it,
  and the non-dense points within \<open>epsilon\<close> of one of its dense points; a point that no
  cluster absorbs gets the noise sentinel \<open>-1\<close>. Clusters are numbered \<open>0, 1, \<dots>\<close> in
  the order of their first point, so the result is deterministic. The radius must be
  positive and the matrix square with at least one point; anything else is refused.
  The functions of the repository take the clusterer as a parameter \<open>DBSCAN\<close>; this
  definition is the instance used where a concrete clusterer is needed. The repository
  always calls \<^verbatim>\<open>DBSCAN(eps=..., metric="precomputed")\<close>, which leaves \<open>min_points\<close> at
  the library's default of 5.
\<close>

text \<open>Modelled from the spec: a dense point of section 4.3 (scikit-learn is not in the sources).\<close>

definition dense :: "nat \<Rightarrow> real \<Rightarrow> ndarray \<Rightarrow> nat \<Rightarrow> bool" where
  "dense min_points epsilon X i \<longleftrightarrow>
     min_points \<le> length (filter (\<lambda>d. d \<le> epsilon) (rows X ! i))"

text \<open>
  Modelled from the spec: one round of the growth of cluster \<open>c\<close> of section 4.3 (scikit-learn
  is not in the sources): every unlabelled point within \<open>epsilon\<close> of a dense point of \<open>c\<close>
  joins it.
\<close>

definition grow :: "nat \<Rightarrow> real \<Rightarrow> ndarray \<Rightarrow> int \<Rightarrow> int list \<Rightarrow> int list" where
  "grow min_points epsilon X c labels =
     map (\<lambda>j. if labels ! j = - 1
                 \<and> list_ex (\<lambda>i. labels ! i = c \<and> dense min_points epsilon X i
                                  \<and> rows X ! i ! j \<le> epsilon) [0 ..< length labels]
               then c else labels ! j) [0 ..< length labels]"

text \<open>
  Modelled from the spec: the labels of section 4.3 (scikit-learn is not in the sources). The
  points are visited in their order; an unlabelled dense point starts the next cluster,
  which grows until nothing joins (at most one round per point).
\<close>

definition dbscan_labels :: "nat \<Rightarrow> real \<Rightarrow> ndarray \<Rightarrow> int list" where
  "dbscan_labels min_points epsilon X =
     fst (fold (\<lambda>i (labels, c).
            if labels ! i = - 1 \<and> dense min_points epsilon X i
            then (((grow min_points epsilon X c) ^^ (nrows X)) (labels[i := c]), c + 1)
            else (labels, c))
          [0 ..< nrows X] (replicate (nrows X) (- 1), 0))"

text \<open>
  Modelled from the spec: the clusterer of section 4.3 with its checks on the radius and the
  matrix (scikit-learn is not in the sources).
\<close>

definition dbscan :: "nat \<Rightarrow> real \<Rightarrow> ndarray \<Rightarrow> error + int list" where
  "dbscan min_points epsilon X =
     (if epsilon \<le> 0 \<or> nrows X = 0 \<or> nrows X \<noteq> ncols X then Inl ValueError
      else Inr (dbscan_labels min_points epsilon X))"

section \<open>Incremental classifier (cluster\_predict.py)\<close>

text \<open>A list comprehension whose element expression may raise.\<close>

fun try_map :: "('a \<Rightarrow> error + 'b) \<Rightarrow> 'a list \<Rightarrow> error + 'b list" where
  "try_map f [] = Inr []"
| "try_map f (x # xs) =
     (case f x of Inl e \<Rightarrow> Inl e
      | Inr y \<Rightarrow> (case try_map f xs of Inl e \<Rightarrow> Inl e | Inr ys \<Rightarrow> Inr (y # ys)))"

text \<open>
  \<^verbatim>\<open>[dtw(voyage, new_voyage, ...).distance for voyage in train_voyages.values()]\<close>, as a
  one-dimensional array.
\<close>

definition calc_extra_distance ::
  "('v \<Rightarrow> 'v \<Rightarrow> error + real) \<Rightarrow> ('k \<times> 'v) list \<Rightarrow> 'v \<Rightarrow> error + real list" where
  "calc_extra_distance dtw train_voyages new_voyage =
     try_map (\<lambda>voyage. dtw voyage new_voyage) (map snd train_voyages)"

text \<open>
  The numpy calls of \<^verbatim>\<open>expand_distance_matrix\<close>. \<^verbatim>\<open>np.expand_dims(v, axis=0)\<close> is the
  row \<open>v\<close> as a \<open>1 \<times> n\<close> array, \<^verbatim>\<open>np.expand_dims(v, axis=-1)\<close> the column \<open>v\<close> as an
  \<open>n \<times> 1\<close> array. \<^verbatim>\<open>np.append(a, b, axis=0)\<close> stacks \<open>b\<close> under \<open>a\<close> and needs equal
  numbers of columns; \<^verbatim>\<open>np.append(a, b, axis=1)\<close> puts \<open>b\<close> to the right of \<open>a\<close> and needs
  equal numbers of rows; both raise \<^verbatim>\<open>ValueError\<close> otherwise, and both build a new array.
\<close>

definition expand_dims_row :: "real list \<Rightarrow> ndarray" where
  "expand_dims_row v = \<lparr>nrows = 1, ncols = length v, rows = [v]\<rparr>"

definition expand_dims_col :: "real list \<Rightarrow> ndarray" where
  "expand_dims_col v = \<lparr>nrows = length v, ncols = 1, rows = map (\<lambda>x. [x]) v\<rparr>"

definition np_append_axis0 :: "ndarray \<Rightarrow> ndarray \<Rightarrow> error + ndarray" where
  "np_append_axis0 a b =
     (if ncols a = ncols b
      then Inr \<lparr>nrows = nrows a + nrows b, ncols = ncols a, rows = rows a @ rows b\<rparr>
      else Inl ValueError)"

definition np_append_axis1 :: "ndarray \<Rightarrow> ndarray \<Rightarrow> error + ndarray" where
  "np_append_axis1 a b =
     (if nrows a = nrows b
      then Inr \<lparr>nrows = nrows a, ncols = ncols a + ncols b, rows = map2 (@) (rows a) (rows b)\<rparr>
      else Inl ValueError)"

definition expand_distance_matrix :: "ndarray \<Rightarrow> real list \<Rightarrow> error + ndarray" where
  "expand_distance_matrix orig_matrix new_distances =
     (case np_append_axis0 orig_matrix (expand_dims_row new_distances) of Inl e \<Rightarrow> Inl e
      | Inr temp_matrix \<Rightarrow>
        (let temp_vector = expand_dims_col (new_distances @ [0])
         in np_append_axis1 temp_matrix temp_vector))"

text \<open>\<^verbatim>\<open>labels[-1]\<close>\<close>

definition py_last :: "'a list \<Rightarrow> error + 'a" where
  "py_last xs = (if xs = [] then Inl IndexError else Inr (last xs))"

text \<open>
  \<open>DBSCAN epsilon\<close> stands for \<^verbatim>\<open>DBSCAN(eps=epsilon, metric="precomputed").fit_predict\<close>.
  The function has no check of its own on the training corpus.
\<close>

definition predict_single_voyage ::
  "(real \<Rightarrow> ndarray \<Rightarrow> error + int list) \<Rightarrow> ('v \<Rightarrow> 'v \<Rightarrow> error + real) \<Rightarrow>
   ('k \<times> 'v) list \<Rightarrow> ndarray \<Rightarrow> 'v \<Rightarrow> real \<Rightarrow> error + int" where
  "predict_single_voyage DBSCAN dtw train_voyages distance_matrix new_voyage epsilon =
     (case calc_extra_distance dtw train_voyages new_voyage of Inl e \<Rightarrow> Inl e
      | Inr new_distance_array \<Rightarrow>
        (case expand_distance_matrix distance_matrix new_distance_array of Inl e \<Rightarrow> Inl e
         | Inr new_distance_matrix \<Rightarrow>
           (case DBSCAN epsilon new_distance_matrix of Inl e \<Rightarrow> Inl e
            | Inr labels \<Rightarrow> py_last labels)))"

section \<open>Simplifier\<close>

type_synonym point = "real \<times> real"

text \<open>
  Modelled from the spec: \<^verbatim>\<open>rdp\<close> is the function of the \<^verbatim>\<open>rdp\<close> package, which is not
  among the repository's sources. Section 4.1 of the specification describes it
  (Douglas--Peucker): always retain the first and the last point; find the point of the
  open interior with the greatest perpendicular distance from the segment that joins
  the first and the last point; if that distance exceeds \<open>epsilon\<close>, keep the point and
  recurse on the two sub-sequences it splits the sequence into (it ends the first and
  starts the second); otherwise discard all interior points. A sequence of fewer than
  three points has no interior and is returned as it is. Among several points at the
  greatest distance the first is taken. The distance is a parameter \<open>pldist\<close> (the point,
  the start, the end); \<open>perpendicular_distance\<close> is the one the specification names.
\<close>

text \<open>
  Modelled from the spec: the perpendicular distance of section 4.1 (the \<^verbatim>\<open>rdp\<close> package is
  not in the sources); between coinciding end points, the distance to that point.
\<close>

definition perpendicular_distance :: "point \<Rightarrow> point \<Rightarrow> point \<Rightarrow> real" where
  "perpendicular_distance p a b =
     (if a = b then sqrt ((fst p - fst a)\<^sup>2 + (snd p - snd a)\<^sup>2)
      else \<bar>(fst b - fst a) * (snd a - snd p) - (snd b - snd a) * (fst a - fst p)\<bar>
           / sqrt ((fst b - fst a)\<^sup>2 + (snd b - snd a)\<^sup>2))"

text \<open>
  Modelled from the spec: the interior point at the greatest distance, with that distance
  (section 4.1; the \<^verbatim>\<open>rdp\<close> package is not in the sources). Used on sequences of three
  points or more.
\<close>

definition farthest :: "(point \<Rightarrow> point \<Rightarrow> point \<Rightarrow> real) \<Rightarrow> point list \<Rightarrow> nat \<times> real" where
  "farthest pldist points =
     fold (\<lambda>i (index, dmax).
             let d = pldist (points ! i) (hd points) (last points)
             in if d > dmax then (i, d) else (index, dmax))
       [2 ..< length points - 1]
       (1, pldist (points ! 1) (hd points) (last points))"

lemma farthest_interior:
  assumes "3 \<le> length points"
  shows "1 \<le> fst (farthest pldist points) \<and> fst (farthest pldist points) < length points - 1"
proof -
  define step where "step = (\<lambda>i (index :: nat, dmax :: real).
             let d = pldist (points ! i) (hd points) (last points)
             in if d > dmax then (i, d) else (index, dmax))"
  have "1 \<le> fst (fold step [2 ..< m] s) \<and> fst (fold step [2 ..< m] s) < length points - 1"
    if "1 \<le> fst s" "fst s < length points - 1" "m \<le> length points - 1" for m s
    using that
  proof (induction m arbitrary: s)
    case 0
    then show ?case by simp
  next
    case (Suc m)
    show ?case
    proof (cases "2 \<le> m")
      case True
      then have "[2 ..< Suc m] = [2 ..< m] @ [m]" by simp
      moreover have "1 \<le> fst (fold step [2 ..< m] s) \<and> fst (fold step [2 ..< m] s) < length points - 1"
        using Suc by simp
      ultimately show ?thesis
        using True Suc.prems(3) by (simp add: step_def Let_def split_def)
    next
      case False
      then have "[2 ..< Suc m] = []" by simp
      then show ?thesis using Suc.prems by simp
    qed
  qed
  from this[of "(1, pldist (points ! 1) (hd points) (last points))" "length points - 1"] assms
  show ?thesis by (simp add: farthest_def step_def)
qed

text \<open>
  Modelled from the spec: the simplification of section 4.1 (the \<^verbatim>\<open>rdp\<close> package is not in
  the sources).
\<close>

function simplify :: "(point \<Rightarrow> point \<Rightarrow> point \<Rightarrow> real) \<Rightarrow> point list \<Rightarrow> real \<Rightarrow> point list" where
  "simplify pldist points epsilon =
     (if length points < 3 then points
      else (let index = fst (farthest pldist points); dmax = snd (farthest pldist points)
            in if dmax > epsilon
               then butlast (simplify pldist (take (index + 1) points) epsilon)
                    @ simplify pldist (drop index points) epsilon
               else [hd points, last points]))"
  by pat_completeness auto
termination
proof (relation "measure (\<lambda>(pldist, points, epsilon). length points)")
  show "wf (measure (\<lambda>(pldist, points, epsilon). length points))" by simp
next
  fix pldist :: "point \<Rightarrow> point \<Rightarrow> point \<Rightarrow> real" and points :: "point list" and epsilon :: real
    and index :: nat and dmax :: real
  assume "\<not> length points < 3" and "index = fst (farthest pldist points)"
  then have "1 \<le> index" "index + 1 < length points"
    using farthest_interior[of points pldist] by auto
  then show "((pldist, take (index + 1) points, epsilon), pldist, points, epsilon)
      \<in> measure (\<lambda>(pldist, points, epsilon). length points)"
    by simp
next
  fix pldist :: "point \<Rightarrow> point \<Rightarrow> point \<Rightarrow> real" and points :: "point list" and epsilon :: real
    and index :: nat and dmax :: real
  assume "\<not> length points < 3" and "index = fst (farthest pldist points)"
  then have "1 \<le> index" "index + 1 < length points"
    using farthest_interior[of points pldist] by auto
  then show "((pldist, drop index points, epsilon), pldist, points, epsilon)
      \<in> measure (\<lambda>(pldist, points, epsilon). length points)"
    by simp
qed

declare simplify.simps [simp del]

section \<open>Compressing the voyages (compress\_and\_compare\_voyages.py)\<close>

text \<open>
  The simplification function is a parameter \<open>rdp\<close> of the model of the repository's
  functions.
\<close>

definition compute_compressed_voyage ::
  "(point list \<Rightarrow> real \<Rightarrow> point list) \<Rightarrow> 'k \<Rightarrow> point list \<Rightarrow> real \<Rightarrow> 'k \<times> point list" where
  "compute_compressed_voyage rdp vid coords epsilon =
     (let mv_coords = rdp coords epsilon in (vid, mv_coords))"

text \<open>
  \<^verbatim>\<open>df.groupby("voyage_id")\<close>: the groups in ascending order of their key, the rows of a
  group in the order of the frame; here with the coordinates of each group as an array,
  as \<^verbatim>\<open>item[1].drop(columns=voyage).values\<close> gives them.
\<close>

definition groupby :: "('k::linorder \<times> point) list \<Rightarrow> ('k \<times> point list) list" where
  "groupby df =
     map (\<lambda>key. (key, map snd (filter (\<lambda>row. fst row = key) df))) (sort (remdups (map fst df)))"

text \<open>
  A dict comprehension or \<^verbatim>\<open>dict.update\<close>: a key that is new goes to the end, a key
  that is present keeps its place and takes the new value.
\<close>

definition dict_update :: "('k \<times> 'v) list \<Rightarrow> ('k \<times> 'v) list \<Rightarrow> ('k \<times> 'v) list" where
  "dict_update d items = fold (\<lambda>(key, v) d. AList.update key v d) items d"

definition dict_of_items :: "('k \<times> 'v) list \<Rightarrow> ('k \<times> 'v) list" where
  "dict_of_items items = dict_update [] items"

text \<open>
  What the functions read of a pandas data frame: the names of the levels of its row
  index (\<open>None\<close> for a level without a name), and the columns \<^verbatim>\<open>voyage_id\<close>, \<^verbatim>\<open>Longitude\<close>
  and \<^verbatim>\<open>Latitude\<close>, each of which the frame may lack. The columns of a frame have one
  length. The frame the feature stage writes has the index levels \<^verbatim>\<open>IMO\<close> and an unnamed
  one.
\<close>

record 'k dataframe =
  index_names :: "string option list"
  voyage_id :: "'k list option"
  Longitude :: "real list option"
  Latitude :: "real list option"

text \<open>
  \<^verbatim>\<open>df.droplevel(level)\<close>: \<^verbatim>\<open>ValueError\<close> when several levels have that name, \<^verbatim>\<open>KeyError\<close>
  when the index has no level of that name, \<^verbatim>\<open>ValueError\<close> when it is the only level.
\<close>

definition droplevel :: "string \<Rightarrow> 'k dataframe \<Rightarrow> error + 'k dataframe" where
  "droplevel level df =
     (if 1 < count_list (index_names df) (Some level) then Inl ValueError
      else if Some level \<notin> set (index_names df) then Inl KeyError
      else if length (index_names df) \<le> 1 then Inl ValueError
      else Inr (df\<lparr>index_names := remove1 (Some level) (index_names df)\<rparr>))"

text \<open>
  \<^verbatim>\<open>df[["voyage_id", "Longitude", "Latitude"]]\<close>: \<^verbatim>\<open>KeyError\<close> when one of the columns is
  missing.
\<close>

definition select_columns :: "'k dataframe \<Rightarrow> error + 'k dataframe" where
  "select_columns df =
     (if voyage_id df = None \<or> Longitude df = None \<or> Latitude df = None then Inl KeyError
      else Inr df)"

text \<open>The rows of a frame that has the three columns: the identifier and the point.\<close>

definition frame_rows :: "'k dataframe \<Rightarrow> ('k \<times> point) list" where
  "frame_rows df =
     (case (voyage_id df, Longitude df, Latitude df) of
        (Some ids, Some longitudes, Some latitudes) \<Rightarrow> zip ids (zip longitudes latitudes)
      | _ \<Rightarrow> [])"

text \<open>
  \<^verbatim>\<open>compress_voyages\<close>. Its first line drops the index level \<^verbatim>\<open>IMO\<close> and selects the three
  columns, whatever the \<open>name\<close> is. The pool has \<^verbatim>\<open>mp.cpu_count() - 1\<close> processes, and
  \<^verbatim>\<open>mp.Pool\<close> raises \<^verbatim>\<open>ValueError\<close> for fewer than one; the number of CPUs is the parameter
  \<open>cpu_count\<close>. (\<open>calc_proximity_matrix\<close> asks for \<^verbatim>\<open>mp.cpu_count()\<close> processes, which is at
  least one.) The printing and the timers are left out. With a \<open>name\<close> other than
  \<^verbatim>\<open>"__main__"\<close> the function falls off its end and returns \<^verbatim>\<open>None\<close>.
\<close>

definition compress_voyages ::
  "(point list \<Rightarrow> real \<Rightarrow> point list) \<Rightarrow> int \<Rightarrow> ('k::linorder) dataframe \<Rightarrow> real
     \<Rightarrow> string \<Rightarrow> error + ('k \<times> point list) list option" where
  "compress_voyages rdp cpu_count df epsilon name =
     (case droplevel ''IMO'' df of Inl e \<Rightarrow> Inl e
      | Inr dropped \<Rightarrow>
      (case select_columns dropped of Inl e \<Rightarrow> Inl e
       | Inr df \<Rightarrow>
         if name = ''__main__'' then
           (let nprocs = cpu_count
            in if nprocs - 1 < 1 then Inl ValueError
               else
                 (let gdf = groupby (frame_rows df);
                      inputs = map (\<lambda>item. (fst item, snd item, epsilon)) gdf;
                      result = map (\<lambda>(vid, coords, epsilon).
                                     compute_compressed_voyage rdp vid coords epsilon) inputs;
                      result = dict_of_items (filter (\<lambda>(key, v). length v > 1) result)
                  in Inr (Some result)))
         else Inr None))"


section \<open>Predicting a test set and the evaluation harness\<close>

text \<open>\<^verbatim>\<open>{vid: compressed_voyages[vid] for vid in ids}\<close>\<close>

definition select_voyages :: "('k \<times> 'v) list \<Rightarrow> 'k list \<Rightarrow> error + ('k \<times> 'v) list" where
  "select_voyages compressed_voyages ids =
     (case try_map (\<lambda>vid. case dict_get compressed_voyages vid of Inl e \<Rightarrow> Inl e
                              | Inr voyage \<Rightarrow> Inr (vid, voyage)) ids of
        Inl e \<Rightarrow> Inl e
      | Inr items \<Rightarrow> Inr (dict_of_items items))"

text \<open>
  \<^verbatim>\<open>predict_voyages\<close> (cluster\_predict.py). With a \<open>name\<close> other than \<^verbatim>\<open>"__main__"\<close> the
  base matrix is \<^verbatim>\<open>None\<close>, which the clusterer's input validation refuses.
\<close>

definition predict_voyages ::
  "(real \<Rightarrow> ndarray \<Rightarrow> error + int list) \<Rightarrow> ('v \<Rightarrow> 'v \<Rightarrow> error + real) \<Rightarrow>
   ('k \<times> 'v) list \<Rightarrow> 'k list \<Rightarrow> 'k list \<Rightarrow> string \<Rightarrow> real
     \<Rightarrow> error + (('k \<times> int) list \<times> ('k \<times> int) list)" where
  "predict_voyages DBSCAN dtw compressed_voyages train_voyages test_voyages name epsilon =
     (case select_voyages compressed_voyages train_voyages of Inl e \<Rightarrow> Inl e
      | Inr train_set \<Rightarrow>
      (case select_voyages compressed_voyages test_voyages of Inl e \<Rightarrow> Inl e
       | Inr test_set \<Rightarrow>
       (case calc_proximity_matrix dtw train_set name of Inl e \<Rightarrow> Inl e
        | Inr None \<Rightarrow> Inl ValueError
        | Inr (Some base_distances) \<Rightarrow>
        (case DBSCAN epsilon base_distances of Inl e \<Rightarrow> Inl e
         | Inr train_labels \<Rightarrow>
           (let train_predictions = dict_of_items (zip (map fst train_set) train_labels)
            in case for_each test_set (\<lambda>(vid, voyage) test_predictions.
                      case predict_single_voyage DBSCAN dtw train_set base_distances voyage epsilon of
                        Inl e \<Rightarrow> Inl e
                      | Inr label \<Rightarrow> Inr (dict_update test_predictions [(vid, label)])) [] of
                 Inl e \<Rightarrow> Inl e
               | Inr test_predictions \<Rightarrow> Inr (train_predictions, test_predictions))))))"

text \<open>\<^verbatim>\<open>{key: int(value < 0) for key, value in predictions.items()}\<close>\<close>

definition make_binary_class :: "('k \<times> int) list \<Rightarrow> ('k \<times> int) list" where
  "make_binary_class predictions =
     dict_of_items (map (\<lambda>(key, v). (key, if v < 0 then 1 else 0)) predictions)"

text \<open>
  The last lines of both evaluations: the oracle labels of the keys of \<open>y_pred\<close>, and the
  confusion matrix of the two lists of values. \<^verbatim>\<open>confusion_matrix\<close> is scikit-learn's
  and a parameter.
\<close>

definition compare_with_oracle ::
  "(int list \<Rightarrow> int list \<Rightarrow> 'c) \<Rightarrow> ('k \<times> int) list \<Rightarrow> ('k \<times> int) list \<Rightarrow> error + 'c" where
  "compare_with_oracle confusion_matrix voyage_classes_all y_pred =
     (case try_map (\<lambda>v. case dict_get voyage_classes_all v of Inl e \<Rightarrow> Inl e
                           | Inr c \<Rightarrow> Inr (v, c)) (map fst y_pred) of
        Inl e \<Rightarrow> Inl e
      | Inr items \<Rightarrow>
          (let y_true = dict_of_items items;
               y_true_value = map snd y_true;
               y_pred_value = map snd y_pred
           in Inr (confusion_matrix y_true_value y_pred_value)))"

text \<open>
  \<^verbatim>\<open>do_k_fold_validation\<close> (prediction\_validation.py), one fold. Its \<open>y_pred\<close> is
  \<^verbatim>\<open>test_bin.copy()\<close> updated with \<^verbatim>\<open>test_bin\<close>; \<open>train_bin\<close> is computed and not used.
\<close>

definition do_k_fold_validation ::
  "(int list \<Rightarrow> int list \<Rightarrow> 'c) \<Rightarrow> (real \<Rightarrow> ndarray \<Rightarrow> error + int list) \<Rightarrow>
   ('v \<Rightarrow> 'v \<Rightarrow> error + real) \<Rightarrow> ('k \<times> 'v) list \<Rightarrow> 'k list \<Rightarrow> 'k list \<Rightarrow> ('k \<times> int) list \<Rightarrow> string
     \<Rightarrow> error + 'c" where
  "do_k_fold_validation confusion_matrix DBSCAN dtw compressed_voyages train_ids test_ids
       voyage_classes_all name =
     (case predict_voyages DBSCAN dtw compressed_voyages train_ids test_ids name 12 of
        Inl e \<Rightarrow> Inl e
      | Inr (train_pred, test_pred) \<Rightarrow>
          (let train_bin = make_binary_class train_pred;
               test_bin = make_binary_class test_pred;
               y_pred = dict_update test_bin test_bin
           in compare_with_oracle confusion_matrix voyage_classes_all y_pred))"

text \<open>
  The hold-out evaluation of the script part of cluster\_predict.py (lines 103--117),
  after the split: its \<open>y_pred\<close> is \<^verbatim>\<open>train_bin.copy()\<close> updated with \<^verbatim>\<open>test_bin\<close>.
\<close>

definition holdout_validation ::
  "(int list \<Rightarrow> int list \<Rightarrow> 'c) \<Rightarrow> (real \<Rightarrow> ndarray \<Rightarrow> error + int list) \<Rightarrow>
   ('v \<Rightarrow> 'v \<Rightarrow> error + real) \<Rightarrow> ('k \<times> 'v) list \<Rightarrow> 'k list \<Rightarrow> 'k list \<Rightarrow> ('k \<times> int) list \<Rightarrow> string
     \<Rightarrow> error + 'c" where
  "holdout_validation confusion_matrix DBSCAN dtw compressed_voyages train test
       voyage_classes_all name =
     (case predict_voyages DBSCAN dtw compressed_voyages train test name 12 of
        Inl e \<Rightarrow> Inl e
      | Inr (train_pred, test_pred) \<Rightarrow>
          (let train_bin = make_binary_class train_pred;
               test_bin = make_binary_class test_pred;
               y_pred = dict_update train_bin test_bin
           in compare_with_oracle confusion_matrix voyage_classes_all y_pred))"

section \<open>Configuration and the pipeline driver (settings.py, main\_pipeline.py)\<close>






section \<open>The incremental classifier on an explicit store\<close>

text \<open>
  For the question what a call leaves unchanged, arrays live in a store: a list of
  cells, a reference being an index. Every numpy call of \<^verbatim>\<open>calc_extra_distance\<close> and
  \<^verbatim>\<open>expand_distance_matrix\<close> (\<^verbatim>\<open>np.array\<close>, \<^verbatim>\<open>np.expand_dims\<close>, \<^verbatim>\<open>np.append\<close>) returns a new
  array object, so it allocates a cell; none of them writes to a cell that exists. A
  voyage is an array of coordinates, one row per point. The distance \<open>dtw\<close> reads the
  two arrays it is given. The clusterer gets the store and the reference of the matrix
  it is to cluster, and returns the store it leaves.
\<close>

datatype obj = Matrix ndarray | Vector "real list"

type_synonym store = "obj list"

definition alloc :: "store \<Rightarrow> obj \<Rightarrow> nat \<times> store" where
  "alloc s x = (length s, s @ [x])"

definition get_matrix :: "store \<Rightarrow> nat \<Rightarrow> error + ndarray" where
  "get_matrix s r =
     (if r < length s then (case s ! r of Matrix a \<Rightarrow> Inr a | Vector v \<Rightarrow> Inl TypeError)
      else Inl TypeError)"

definition get_vector :: "store \<Rightarrow> nat \<Rightarrow> error + real list" where
  "get_vector s r =
     (if r < length s then (case s ! r of Vector v \<Rightarrow> Inr v | Matrix a \<Rightarrow> Inl TypeError)
      else Inl TypeError)"

definition calc_extra_distance_st ::
  "(ndarray \<Rightarrow> ndarray \<Rightarrow> error + real) \<Rightarrow> store \<Rightarrow> ('k \<times> nat) list \<Rightarrow> nat \<Rightarrow> error + nat \<times> store" where
  "calc_extra_distance_st dtw s train_voyages new_voyage =
     (case try_map (\<lambda>r. case get_matrix s r of Inl e \<Rightarrow> Inl e
                          | Inr voyage \<Rightarrow>
                            (case get_matrix s new_voyage of Inl e \<Rightarrow> Inl e
                             | Inr nv \<Rightarrow> dtw voyage nv)) (map snd train_voyages) of
        Inl e \<Rightarrow> Inl e
      | Inr distances \<Rightarrow> Inr (alloc s (Vector distances)))"

definition expand_distance_matrix_st :: "store \<Rightarrow> nat \<Rightarrow> nat \<Rightarrow> error + nat \<times> store" where
  "expand_distance_matrix_st s orig_matrix new_distances =
     (case get_matrix s orig_matrix of Inl e \<Rightarrow> Inl e
      | Inr orig \<Rightarrow>
      (case get_vector s new_distances of Inl e \<Rightarrow> Inl e
       | Inr v \<Rightarrow>
         (let (row, s1) = alloc s (Matrix (expand_dims_row v))
          in case np_append_axis0 orig (expand_dims_row v) of Inl e \<Rightarrow> Inl e
             | Inr tm \<Rightarrow>
               (let (temp_matrix, s2) = alloc s1 (Matrix tm);
                    (extended, s3) = alloc s2 (Vector (v @ [0]));
                    (temp_vector, s4) = alloc s3 (Matrix (expand_dims_col (v @ [0])))
                in case np_append_axis1 tm (expand_dims_col (v @ [0])) of Inl e \<Rightarrow> Inl e
                   | Inr res \<Rightarrow> Inr (alloc s4 (Matrix res))))))"

definition predict_single_voyage_st ::
  "(real \<Rightarrow> store \<Rightarrow> nat \<Rightarrow> error + int list \<times> store) \<Rightarrow> (ndarray \<Rightarrow> ndarray \<Rightarrow> error + real) \<Rightarrow>
   store \<Rightarrow> ('k \<times> nat) list \<Rightarrow> nat \<Rightarrow> nat \<Rightarrow> real \<Rightarrow> error + int \<times> store" where
  "predict_single_voyage_st DBSCAN dtw s train_voyages distance_matrix new_voyage epsilon =
     (case calc_extra_distance_st dtw s train_voyages new_voyage of Inl e \<Rightarrow> Inl e
      | Inr (new_distance_array, s1) \<Rightarrow>
      (case expand_distance_matrix_st s1 distance_matrix new_distance_array of Inl e \<Rightarrow> Inl e
       | Inr (new_distance_matrix, s2) \<Rightarrow>
       (case DBSCAN epsilon s2 new_distance_matrix of Inl e \<Rightarrow> Inl e
        | Inr (labels, s3) \<Rightarrow>
          (case py_last labels of Inl e \<Rightarrow> Inl e | Inr label \<Rightarrow> Inr (label, s3)))))"

text \<open>
  What is assumed of the library's clusterer: of the cells that exist when it is called
  it writes at most the one it is given. (scikit-learn's DBSCAN does not write that one
  either.)
\<close>

definition writes_only_argument :: "(real \<Rightarrow> store \<Rightarrow> nat \<Rightarrow> error + int list \<times> store) \<Rightarrow> bool" where
  "writes_only_argument DBSCAN \<longleftrightarrow>
     (\<forall>epsilon s r labels s'. DBSCAN epsilon s r = Inr (labels, s') \<longrightarrow>
        length s \<le> length s' \<and> (\<forall>a<length s. a \<noteq> r \<longrightarrow> s' ! a = s ! a))"

text \<open>A clusterer that reads its matrix from the store and leaves the store as it is.\<close>

definition on_store ::
  "(real \<Rightarrow> ndarray \<Rightarrow> error + int list) \<Rightarrow> real \<Rightarrow> store \<Rightarrow> nat \<Rightarrow> error + int list \<times> store" where
  "on_store clusterer epsilon s r =
     (case get_matrix s r of Inl e \<Rightarrow> Inl e
      | Inr X \<Rightarrow> (case clusterer epsilon X of Inl e \<Rightarrow> Inl e | Inr labels \<Rightarrow> Inr (labels, s)))"

section \<open>Auxiliary notions of the proofs\<close>

text \<open>The index and the number of pairs as exact integers, without the rounding of a float.\<close>

definition triangular_index :: "int \<Rightarrow> int \<Rightarrow> int \<Rightarrow> int" where
  "triangular_index n i j = n * i - (i * (i + 1)) div 2 + j - i - 1"

definition triangular_count :: "int \<Rightarrow> int" where
  "triangular_count n = (n * (n - 1)) div 2"

text \<open>
  The two nested loops \<^verbatim>\<open>for i in range(n_voyages - 1): for j in range(i + 1, n_voyages)\<close>
  visit the pairs in this order.
\<close>

definition pair_row :: "nat \<Rightarrow> nat \<Rightarrow> (nat \<times> nat) list" where
  "pair_row n i = map (Pair i) [i + 1 ..< n]"

definition pair_loop :: "nat \<Rightarrow> (nat \<times> nat) list" where
  "pair_loop n = concat (map (pair_row n) [0 ..< n - 1])"

text \<open>The number of work items that precede row \<open>i\<close> in that order.\<close>

fun row_start :: "nat \<Rightarrow> nat \<Rightarrow> nat" where
  "row_start n 0 = 0"
| "row_start n (Suc i) = row_start n i + (n - 1 - i)"

text \<open>What the loops of \<open>create_inputs\<close> keep true of \<^verbatim>\<open>inputs\<close>: a slot that is filled holds
  the item of a pair \<open>i < j < n\<close>.\<close>

definition items_valid :: "nat \<Rightarrow> (nat \<times> nat \<times> 'v \<times> 'v) option list \<Rightarrow> bool" where
  "items_valid n inputs \<longleftrightarrow>
     (\<forall>x \<in> set inputs. case x of None \<Rightarrow> True | Some (i, j, a, b) \<Rightarrow> i < j \<and> j < n)"

text \<open>The work item the loops of \<open>create_inputs\<close> store for the pair \<open>(i, j)\<close>.\<close>

definition item_of :: "('k \<times> 'v) list \<Rightarrow> nat \<times> nat \<Rightarrow> nat \<times> nat \<times> 'v \<times> 'v" where
  "item_of d = (\<lambda>(i, j). (i, j, projr (dict_get d (map fst d ! i)), projr (dict_get d (map fst d ! j))))"

text \<open>The invariant of the loop that fills \<^verbatim>\<open>distances\<close>: an \<open>n \<times> n\<close> array with a zero diagonal.\<close>

definition square_zero_diag :: "nat \<Rightarrow> ndarray \<Rightarrow> bool" where
  "square_zero_diag n a \<longleftrightarrow> nrows a = n \<and> ncols a = n \<and> length (rows a) = n
      \<and> (\<forall>i<n. length (rows a ! i) = n \<and> rows a ! i ! i = 0)"


text \<open>A store that keeps every cell of another and may have more.\<close>

definition extends :: "store \<Rightarrow> store \<Rightarrow> bool" where
  "extends s s' \<longleftrightarrow> length s \<le> length s' \<and> (\<forall>a<length s. s' ! a = s ! a)"

section \<open>Verification: the triangular index\<close>

lemma even_prod: "2 * ((i * (i + 1)) div 2) = i * (i + (1::int))"
  by simp

lemma row_start_closed: "i \<le> n \<Longrightarrow> 2 * int (row_start n i) = 2 * int n * int i - int i * (int i + 1)"
proof (induction i)
  case 0 then show ?case by simp
next
  case (Suc i)
  then have "int (n - 1 - i) = int n - 1 - int i" by simp
  with Suc show ?case by (simp add: algebra_simps)
qed

lemma flat_index_row_start:
  assumes "i < j" "j < n"
  shows "triangular_index (int n) (int i) (int j) = int (row_start n i + (j - i - 1))"
proof -
  have "2 * triangular_index (int n) (int i) (int j) = 2 * int n * int i - int i * (int i + 1) + 2 * (int j - int i - 1)"
    unfolding triangular_index_def using even_prod[of "int i"] by (simp add: algebra_simps)
  moreover have "2 * int (row_start n i) = 2 * int n * int i - int i * (int i + 1)"
    using assms by (intro row_start_closed) simp
  moreover have "int (j - i - 1) = int j - int i - 1" using assms by simp
  ultimately show ?thesis by simp
qed

lemma number_combinations_row_start: "triangular_count (int n) = int (row_start n (n - 1))"
proof (cases n)
  case 0 then show ?thesis by (simp add: triangular_count_def)
next
  case (Suc m)
  have "2 * triangular_count (int n) = int n * (int n - 1)"
    unfolding triangular_count_def using even_prod[of "int n - 1"] by (simp add: algebra_simps)
  moreover have "2 * int (row_start n (n - 1)) = 2 * int n * int (n - 1) - int (n - 1) * (int (n - 1) + 1)"
    by (intro row_start_closed) simp
  moreover have "int (n - 1) = int n - 1" using Suc by simp
  ultimately show ?thesis by (simp add: algebra_simps)
qed

lemma map_flat_pair_row:
  assumes "i < n"
  shows "map (\<lambda>(i, j). triangular_index (int n) (int i) (int j)) (pair_row n i)
       = map int [row_start n i ..< row_start n (Suc i)]"
proof -
  have "map (\<lambda>(i, j). triangular_index (int n) (int i) (int j)) (pair_row n i)
      = map (\<lambda>j. int (row_start n i + (j - i - 1))) [i + 1 ..< n]"
    unfolding pair_row_def by (simp add: flat_index_row_start o_def)
  also have "\<dots> = map int (map (\<lambda>j. row_start n i + (j - i - 1)) [i + 1 ..< n])"
    by simp
  also have "map (\<lambda>j. row_start n i + (j - i - 1)) [i + 1 ..< n] = [row_start n i ..< row_start n (Suc i)]"
  proof (rule nth_equalityI)
    show "length (map (\<lambda>j. row_start n i + (j - i - 1)) [i + 1..<n]) = length [row_start n i..<row_start n (Suc i)]"
      using assms by simp
  next
    fix k assume "k < length (map (\<lambda>j. row_start n i + (j - i - 1)) [i + 1..<n])"
    then show "map (\<lambda>j. row_start n i + (j - i - 1)) [i + 1..<n] ! k = [row_start n i..<row_start n (Suc i)] ! k"
      by simp
  qed
  finally show ?thesis .
qed

lemma map_flat_rows:
  "m \<le> n \<Longrightarrow> map (\<lambda>(i, j). triangular_index (int n) (int i) (int j)) (concat (map (pair_row n) [0 ..< m]))
     = map int [0 ..< row_start n m]"
proof (induction m)
  case 0 then show ?case by simp
next
  case (Suc m)
  then have "m < n" by simp
  have "[0 ..< row_start n (Suc m)] = [0 ..< row_start n m] @ [row_start n m ..< row_start n (Suc m)]"
    using upt_add_eq_append[of 0 "row_start n m" "n - 1 - m"] by simp
  with Suc map_flat_pair_row[OF \<open>m < n\<close>] show ?case by simp
qed

lemma map_flat_pair_loop:
  "map (\<lambda>(i, j). triangular_index (int n) (int i) (int j)) (pair_loop n)
     = map int [0 ..< nat (triangular_count (int n))]"
  unfolding pair_loop_def using map_flat_rows[of "n - 1" n]
  by (simp add: number_combinations_row_start)

lemma set_pair_loop: "set (pair_loop n) = {(i, j). i < j \<and> j < n}"
proof -
  have "(i, j) \<in> set (pair_loop n) \<longleftrightarrow> i < j \<and> j < n" for i j
  proof
    assume "(i, j) \<in> set (pair_loop n)"
    then show "i < j \<and> j < n" unfolding pair_loop_def pair_row_def by auto
  next
    assume a: "i < j \<and> j < n"
    then have "i \<in> set [0 ..< n - 1]" "(i, j) \<in> set (pair_row n i)"
      unfolding pair_row_def by auto
    then show "(i, j) \<in> set (pair_loop n)" unfolding pair_loop_def by auto
  qed
  then show ?thesis by auto
qed

lemma length_pair_loop: "length (pair_loop n) = nat (triangular_count (int n))"
  using arg_cong[OF map_flat_pair_loop, of length] by simp



text \<open>Up to \<open>2\<^sup>5\<^sup>4\<close> the float division by 2 of an even number is exact.\<close>

lemma int_of_half_exact:
  assumes "0 \<le> x" "x < 2 ^ 54" "even x"
  shows "int_of_half x = Inr (x div 2)"
proof (cases "x < 2 ^ 53")
  case True
  then show ?thesis using assms(1) by (auto simp: int_of_half_def sgn_if)
next
  case False
  then have lo: "2 ^ 53 \<le> x" by simp
  have "bitlen x \<le> 54" using assms(2) by (simp add: bitlen_le_iff_power)
  moreover have "54 \<le> bitlen x" using lo by (simp add: bitlen_ge_iff_power)
  ultimately have b: "bitlen x = 54" by simp
  have r: "round_half_even x 2 = x div 2"
    using assms(3) by (simp add: round_half_even_def Let_def)
  have "x div 2 < 2 ^ 1024"
  proof -
    have "x div 2 \<le> x" using assms(1) by simp
    also have "x < 2 ^ 54" by (rule assms(2))
    also have "(2 :: int) ^ 54 \<le> 2 ^ 1024" by (rule power_increasing) simp_all
    finally show ?thesis .
  qed
  moreover have "0 \<le> x div 2" using assms(1) by simp
  ultimately show ?thesis
    using lo assms(1) by (simp add: int_of_half_def b r Let_def)
qed

lemma product_bound:
  assumes "a < 2 ^ 27" "b \<le> 2 ^ 27"
  shows "int a * int b < 2 ^ 54"
proof -
  have "int a * int b \<le> int a * 2 ^ 27"
    using assms(2) by (intro mult_left_mono) (simp_all flip: of_nat_le_iff)
  also have "\<dots> < 2 ^ 27 * 2 ^ 27"
    using assms(1) by (intro mult_strict_right_mono) (simp_all flip: of_nat_less_iff)
  also have "\<dots> = (2 :: int) ^ 54" by simp
  finally show ?thesis .
qed

lemma flat_index_exact:
  assumes "n \<le> 2 ^ 27" "i < j" "j < n"
  shows "flat_index (int n) (int i) (int j) = Inr (triangular_index (int n) (int i) (int j))"
proof -
  have "int i * (int i + 1) = int i * int (i + 1)" by simp
  also have "\<dots> < 2 ^ 54" using assms by (intro product_bound) simp_all
  finally have "int_of_half (int i * (int i + 1)) = Inr ((int i * (int i + 1)) div 2)"
    by (intro int_of_half_exact) simp_all
  then show ?thesis by (simp add: flat_index_def triangular_index_def)
qed

lemma number_combinations_exact:
  assumes "n \<le> 2 ^ 27"
  shows "number_combinations (int n) = Inr (triangular_count (int n))"
proof (cases n)
  case 0
  then show ?thesis by (simp add: number_combinations_def triangular_count_def int_of_half_def)
next
  case (Suc k)
  then have e: "int n * (int n - 1) = int k * int n" by (simp add: algebra_simps)
  have "int k * int n < 2 ^ 54" using assms Suc by (intro product_bound) simp_all
  moreover have "even (int k * int n)" using Suc by simp
  moreover have "0 \<le> int k * int n" by simp
  ultimately have "int_of_half (int k * int n) = Inr ((int k * int n) div 2)"
    by (intro int_of_half_exact)
  then show ?thesis
    unfolding number_combinations_def triangular_count_def e .
qed

lemma triangular_index_bij:
  "bij_betw (\<lambda>(i, j). triangular_index (int n) (int i) (int j)) {(i, j). i < j \<and> j < n}
     {0 ..< triangular_count (int n)}"
proof -
  let ?f = "\<lambda>(i, j). triangular_index (int n) (int i) (int j)"
  have d: "distinct (map ?f (pair_loop n))"
    unfolding map_flat_pair_loop by (simp add: distinct_map)
  then have "inj_on ?f (set (pair_loop n))" by (simp add: distinct_map)
  moreover have "?f ` set (pair_loop n) = set (map ?f (pair_loop n))" by simp
  moreover have "set (map int [0 ..< nat (triangular_count (int n))]) = {0 ..< triangular_count (int n)}"
  proof -
    have "x \<in> int ` {0 ..< nat k} \<longleftrightarrow> 0 \<le> x \<and> x < k" for x k :: int
    proof
      assume "x \<in> int ` {0 ..< nat k}" then show "0 \<le> x \<and> x < k" by auto
    next
      assume "0 \<le> x \<and> x < k"
      then have "nat x \<in> {0 ..< nat k}" "x = int (nat x)" by auto
      then show "x \<in> int ` {0 ..< nat k}" by blast
    qed
    then show ?thesis by auto
  qed
  ultimately show ?thesis
    unfolding bij_betw_def set_pair_loop[symmetric] map_flat_pair_loop by simp
qed


text \<open>
  Claim C1, as amended. The claim is that for every corpus size the flat index is a
  bijection from the pairs \<open>i < j < N\<close> onto \<open>{0, \<dots>, N (N - 1) / 2 - 1}\<close>. The index is
  computed with a float division, so this holds for the corpus sizes where that division
  is exact: for every \<open>N \<le> 2\<^sup>2\<^sup>7\<close> the number of work items is \<open>N (N - 1) / 2\<close>, no index
  computation raises, and the index is a bijection from the pairs onto the slots; it is
  a function of \<open>(i, j, N)\<close> alone.
\<close>

theorem flat_index_bij:
  assumes "n \<le> 2 ^ 27"
  shows "number_combinations (int n) = Inr (int (n * (n - 1) div 2))
       \<and> bij_betw (\<lambda>(i, j). flat_index (int n) (int i) (int j)) {(i, j). i < j \<and> j < n}
             (Inr ` {0 ..< int (n * (n - 1) div 2)})"
proof -
  have c: "triangular_count (int n) = int (n * (n - 1) div 2)"
  proof (cases n)
    case 0
    then show ?thesis by (simp add: triangular_count_def)
  next
    case (Suc k)
    then have "int (n - 1) = int n - 1" by simp
    then have e: "int (n * (n - 1)) = int n * (int n - 1)" by (simp only: of_nat_mult)
    have "int (n * (n - 1) div 2) = int (n * (n - 1)) div 2" by (simp only: zdiv_int of_nat_numeral)
    then show ?thesis unfolding triangular_count_def e by (rule sym)
  qed
  let ?A = "{(i, j). i < j \<and> j < n}"
  let ?f = "\<lambda>(i, j). triangular_index (int n) (int i) (int j)"
  let ?g = "\<lambda>(i, j). flat_index (int n) (int i) (int j)"
  let ?I = "Inr :: int \<Rightarrow> error + int"
  have "bij_betw ?I {0 ..< triangular_count (int n)} (?I ` {0 ..< triangular_count (int n)})"
    by (rule inj_on_imp_bij_betw) simp
  with triangular_index_bij[of n]
  have "bij_betw (?I \<circ> ?f) ?A (?I ` {0 ..< triangular_count (int n)})"
    by (rule bij_betw_trans)
  moreover have "(?I \<circ> ?f) p = ?g p" if "p \<in> ?A" for p
    using that flat_index_exact[OF assms] by auto
  ultimately have "bij_betw ?g ?A (?I ` {0 ..< triangular_count (int n)})"
    using bij_betw_cong[of ?A "?I \<circ> ?f" ?g] by blast
  then show ?thesis using number_combinations_exact[OF assms] c by simp
qed

theorem flat_index_bij_witness:
  "number_combinations 4 = Inr 6
   \<and> bij_betw (\<lambda>(i, j). flat_index 4 (int i) (int j)) {(i, j). i < j \<and> j < 4}
         (Inr ` {0 ..< 6})"
proof -
  have "(4 :: nat) \<le> 2 ^ 27" by simp
  from flat_index_bij[OF this] show ?thesis by simp
qed

text \<open>
  The claim as stated fails for a corpus of \<open>2 \<cdot> 10\<^sup>8\<close> voyages: two pairs get one index,
  since \<open>i (i + 1) / 2\<close> is beyond \<open>2\<^sup>5\<^sup>3\<close> and odd for both \<open>i\<close> and is rounded.
\<close>

theorem flat_index_bij_counterexample:
  "flat_index 200000000 134217729 199999999 = Inr 17836346409714685
   \<and> flat_index 200000000 134217730 134217732 = Inr 17836346409714685
   \<and> \<not> inj_on (\<lambda>(i, j). flat_index 200000000 (int i) (int j))
           {(i, j). i < j \<and> j < 200000000}"
proof -
  have a: "flat_index 200000000 134217729 199999999 = Inr 17836346409714685"
    by code_simp
  have b: "flat_index 200000000 134217730 134217732 = Inr 17836346409714685"
    by code_simp
  have "\<not> inj_on (\<lambda>(i, j). flat_index 200000000 (int i) (int j))
           {(i, j). i < j \<and> j < 200000000}"
  proof
    assume "inj_on (\<lambda>(i, j). flat_index 200000000 (int i) (int j))
           {(i, j). i < j \<and> j < 200000000}"
    moreover have "(case (134217729 :: nat, 199999999 :: nat) of (i, j) \<Rightarrow> flat_index 200000000 (int i) (int j))
       = (case (134217730 :: nat, 134217732 :: nat) of (i, j) \<Rightarrow> flat_index 200000000 (int i) (int j))"
      using a b by simp
    moreover have "(134217729 :: nat, 199999999 :: nat) \<in> {(i, j). i < j \<and> j < 200000000}"
      "(134217730 :: nat, 134217732 :: nat) \<in> {(i, j). i < j \<and> j < 200000000}"
      by simp_all
    ultimately have "(134217729 :: nat, 199999999 :: nat) = (134217730, 134217732)"
      by (rule inj_onD)
    then show False by simp
  qed
  with a b show ?thesis by simp
qed

section \<open>Verification: the distance matrix\<close>

lemma for_each_append:
  "for_each (xs @ ys) f s = (case for_each xs f s of Inl e \<Rightarrow> Inl e | Inr s' \<Rightarrow> for_each ys f s')"
  by (induction xs arbitrary: s) (auto split: sum.splits)

lemma for_each_map: "for_each (map g xs) f s = for_each xs (\<lambda>x. f (g x)) s"
  by (induction xs arbitrary: s) (auto split: sum.splits)

lemma for_each_cong:
  "(\<And>x s. x \<in> set xs \<Longrightarrow> f x s = g x s) \<Longrightarrow> for_each xs f s = for_each xs g s"
  by (induction xs arbitrary: s) (auto split: sum.splits)

lemma for_each_nested:
  "for_each xs (\<lambda>x. for_each (ys x) (f x)) s
     = for_each (concat (map (\<lambda>x. map (Pair x) (ys x)) xs)) (\<lambda>(x, y). f x y) s"
proof (induction xs arbitrary: s)
  case Nil
  then show ?case by simp
next
  case (Cons x xs)
  have "for_each (map (Pair x) (ys x)) (\<lambda>(x, y). f x y) s = for_each (ys x) (f x) s"
    by (simp add: for_each_map)
  with Cons show ?case by (simp add: for_each_append split: sum.splits)
qed

lemma py_setitem_in_range:
  "k < length xs \<Longrightarrow> py_setitem xs (int k) v = Inr (xs[k := v])"
  by (simp add: py_setitem_def)

lemma for_each_fill:
  assumes "map idx ps = map int [b ..< m]" "m \<le> length xs"
  shows "for_each ps (\<lambda>p inputs. py_setitem inputs (idx p) (Some (g p))) xs
       = Inr (take b xs @ map (\<lambda>p. Some (g p)) ps @ drop (max b m) xs)"
  using assms
proof (induction ps arbitrary: b xs)
  case Nil
  then have "max b m = b" by (auto simp: max_def)
  then show ?case by simp
next
  case (Cons p ps)
  have "length (map idx (p # ps)) = length (map int [b ..< m])"
    using Cons.prems(1) by (rule arg_cong)
  then have bm: "b < m" by simp
  then have "[b ..< m] = b # [Suc b ..< m]" by (rule upt_conv_Cons)
  with Cons.prems(1) have hd: "idx p = int b" and tl: "map idx ps = map int [Suc b ..< m]"
    by simp_all
  from Cons.prems(2) bm have b: "b < length xs" and le: "m \<le> length (xs[b := Some (g p)])"
    by simp_all
  have "for_each (p # ps) (\<lambda>p inputs. py_setitem inputs (idx p) (Some (g p))) xs
      = for_each ps (\<lambda>p inputs. py_setitem inputs (idx p) (Some (g p))) (xs[b := Some (g p)])"
    using hd b by (simp add: py_setitem_in_range)
  also have "\<dots> = Inr (take (Suc b) (xs[b := Some (g p)]) @ map (\<lambda>p. Some (g p)) ps
                 @ drop (max (Suc b) m) (xs[b := Some (g p)]))"
    by (rule Cons.IH[OF tl le])
  also have "take (Suc b) (xs[b := Some (g p)]) = take b xs @ [Some (g p)]"
    using b by (simp add: take_Suc_conv_app_nth)
  also have "drop (max (Suc b) m) (xs[b := Some (g p)]) = drop (max b m) xs"
    using bm by (simp add: max_def)
  finally show ?case by simp
qed

lemma dict_get_item: 
  assumes "i < length d"
  shows "\<exists>v. dict_get d (map fst d ! i) = Inr v"
proof -
  have "fst (d ! i) \<in> fst ` set d" using assms by simp
  then obtain v where "map_of d (fst (d ! i)) = Some v"
    by (metis domD dom_map_of_conv_image_fst)
  then show ?thesis using assms by (simp add: dict_get_def)
qed

lemma create_inputs_eq:
  fixes cv :: "('k \<times> 'v) list"
  assumes "length cv \<le> 2 ^ 27"
  shows "create_inputs cv = Inr (map (\<lambda>p. Some (item_of cv p)) (pair_loop (length cv)))"
proof -
  let ?n = "length cv"
  let ?body = "\<lambda>i j inputs.
             case flat_index (int ?n) (int i) (int j) of Inl e \<Rightarrow> Inl e
             | Inr index \<Rightarrow>
             (case dict_get cv (map fst cv ! i) of Inl e \<Rightarrow> Inl e
              | Inr i_coords \<Rightarrow>
              (case dict_get cv (map fst cv ! j) of Inl e \<Rightarrow> Inl e
               | Inr j_coords \<Rightarrow>
                 py_setitem inputs index (Some (i, j, i_coords, j_coords))))"
  let ?idx = "\<lambda>(i, j). triangular_index (int ?n) (int i) (int j)"
  let ?xs = "replicate (nat (triangular_count (int ?n))) (None :: (nat \<times> nat \<times> 'v \<times> 'v) option)"
  have nonneg: "0 \<le> triangular_count (int ?n)"
    by (simp add: number_combinations_row_start)
  have "create_inputs cv = for_each (pair_loop ?n) (\<lambda>(i, j). ?body i j) ?xs"
    unfolding create_inputs_def Let_def pair_loop_def pair_row_def
    using nonneg by (simp add: for_each_nested number_combinations_exact[OF assms])
  also have "\<dots> = for_each (pair_loop ?n) (\<lambda>p inputs. py_setitem inputs (?idx p) (Some (item_of cv p))) ?xs"
  proof (rule for_each_cong)
    fix p s assume "p \<in> set (pair_loop ?n)"
    then obtain i j where p: "p = (i, j)" and ij: "i < j" "j < ?n"
      by (auto simp: set_pair_loop)
    from ij obtain a b where "dict_get cv (map fst cv ! i) = Inr a" "dict_get cv (map fst cv ! j) = Inr b"
      using dict_get_item[of i cv] dict_get_item[of j cv] by auto
    then show "(case p of (i, j) \<Rightarrow> ?body i j) s = py_setitem s (?idx p) (Some (item_of cv p))"
      by (simp add: p item_of_def flat_index_exact[OF assms ij])
  qed
  also have "\<dots> = Inr (take 0 ?xs @ map (\<lambda>p. Some (item_of cv p)) (pair_loop ?n)
                      @ drop (max 0 (nat (triangular_count (int ?n)))) ?xs)"
    by (rule for_each_fill) (simp_all add: map_flat_pair_loop)
  finally show ?thesis by (simp add: length_pair_loop)
qed

text \<open>
  Whatever the corpus, a slot of \<^verbatim>\<open>inputs\<close> that the loops have filled holds the item of a
  pair \<open>i < j < n\<close>, and so does every result of the pool.
\<close>

lemma for_each_invariant:
  assumes "for_each xs body s = Inr s'" "P s"
    and "\<And>x t t'. x \<in> set xs \<Longrightarrow> P t \<Longrightarrow> body x t = Inr t' \<Longrightarrow> P t'"
  shows "P s'"
  using assms
proof (induction xs arbitrary: s)
  case Nil
  then show ?case by simp
next
  case (Cons x xs)
  from Cons.prems(1) obtain t where t: "body x s = Inr t" and rest: "for_each xs body t = Inr s'"
    by (auto split: sum.splits)
  have "P t" using Cons.prems(3)[of x s t] Cons.prems(2) t by simp
  moreover have "\<And>y u u'. y \<in> set xs \<Longrightarrow> P u \<Longrightarrow> body y u = Inr u' \<Longrightarrow> P u'"
  proof -
    fix y u u' assume "y \<in> set xs" "P u" "body y u = Inr u'"
    then show "P u'" using Cons.prems(3)[of y u u'] by simp
  qed
  ultimately show ?case using Cons.IH[OF rest] by blast
qed

lemma py_setitem_valid:
  assumes "items_valid n inputs" "py_setitem inputs k (Some (i, j, a, b)) = Inr inputs'"
    "i < j" "j < n"
  shows "items_valid n inputs'"
proof -
  from assms(2) obtain m where "inputs' = inputs[m := Some (i, j, a, b)]"
    by (auto simp: py_setitem_def Let_def split: if_splits)
  then have "set inputs' \<subseteq> insert (Some (i, j, a, b)) (set inputs)"
    by (simp add: set_update_subset_insert)
  with assms(1,3,4) show ?thesis by (auto simp: items_valid_def)
qed

lemma create_inputs_valid:
  assumes "create_inputs cv = Inr inputs"
  shows "items_valid (length cv) inputs"
proof -
  let ?n = "length cv"
  let ?inner = "\<lambda>i j inputs.
             case flat_index (int ?n) (int i) (int j) of Inl e \<Rightarrow> Inl e
             | Inr index \<Rightarrow>
             (case dict_get cv (map fst cv ! i) of Inl e \<Rightarrow> Inl e
              | Inr i_coords \<Rightarrow>
              (case dict_get cv (map fst cv ! j) of Inl e \<Rightarrow> Inl e
               | Inr j_coords \<Rightarrow>
                 py_setitem inputs index (Some (i, j, i_coords, j_coords))))"
  from assms obtain c where
    loops: "for_each [0 ..< ?n - 1] (\<lambda>i. for_each [i + 1 ..< ?n] (?inner i))
              (replicate (nat c) None) = Inr inputs"
    by (auto simp: create_inputs_def Let_def split: sum.splits if_splits)
  show ?thesis
  proof (rule for_each_invariant[OF loops, where P = "items_valid ?n"])
    show "items_valid ?n (replicate (nat c) None)"
      by (simp add: items_valid_def)
  next
    fix i t t'
    assume i: "i \<in> set [0 ..< ?n - 1]" and t: "items_valid ?n t"
      and row: "for_each [i + 1 ..< ?n] (?inner i) t = Inr t'"
    show "items_valid ?n t'"
    proof (rule for_each_invariant[OF row, where P = "items_valid ?n"])
      show "items_valid ?n t" by (rule t)
    next
      fix j u u'
      assume j: "j \<in> set [i + 1 ..< ?n]" and u: "items_valid ?n u" and step: "?inner i j u = Inr u'"
      from step obtain k a b where k: "py_setitem u k (Some (i, j, a, b)) = Inr u'"
        by (auto split: sum.splits)
      from j have "i < j" "j < ?n" by auto
      then show "items_valid ?n u'" by (rule py_setitem_valid[OF u k])
    qed
  qed
qed

lemma starmap_valid:
  assumes "starmap (proximity_parallel dtw) inputs = Inr result" "items_valid n inputs"
    "(i, j, d) \<in> set result"
  shows "i < j \<and> j < n"
  using assms
proof (induction inputs arbitrary: result)
  case Nil
  then show ?case by simp
next
  case (Cons x inputs)
  from Cons.prems(1) obtain i' j' a b where x: "x = Some (i', j', a, b)"
    by (cases x) auto
  from Cons.prems(1) obtain r rs where r: "proximity_parallel dtw i' j' a b = Inr r"
    and rs: "starmap (proximity_parallel dtw) inputs = Inr rs" "result = r # rs"
    by (auto simp: x split: sum.splits)
  from r obtain d' where r': "r = (i', j', d')"
    by (auto simp: proximity_parallel_def split: sum.splits)
  from Cons.prems(2) have v: "i' < j' \<and> j' < n" "items_valid n inputs"
    by (simp_all add: items_valid_def x)
  from Cons.prems(3) rs(2) r' consider "(i, j, d) = (i', j', d')" | "(i, j, d) \<in> set rs" by auto
  then show ?case
  proof cases
    case 1
    then show ?thesis using v(1) by simp
  next
    case 2
    then show ?thesis using Cons.IH[OF rs(1) v(2)] by simp
  qed
qed

lemma starmap_proximity:
  "starmap (proximity_parallel dtw) (map Some items) = Inr result \<Longrightarrow>
     map (\<lambda>(i, j, d). (i, j)) result = map (\<lambda>(i, j, a, b). (i, j)) items"
proof (induction items arbitrary: result)
  case Nil
  then show ?case by simp
next
  case (Cons x items)
  obtain i j a b where x: "x = (i, j, a, b)" by (cases x)
  from Cons.prems obtain r rs where r: "proximity_parallel dtw i j a b = Inr r"
    and rs: "starmap (proximity_parallel dtw) (map Some items) = Inr rs" "result = r # rs"
    by (auto simp: x split: sum.splits)
  from r obtain d where "r = (i, j, d)"
    by (auto simp: proximity_parallel_def split: sum.splits)
  with rs Cons.IH[of rs] show ?case by (simp add: x)
qed

lemma starmap_total:
  assumes "\<And>i j a b. (i, j, a, b) \<in> set items \<Longrightarrow> \<exists>r. f i j a b = Inr r"
  shows "\<exists>rs. starmap f (map Some items) = Inr rs"
  using assms
proof (induction items)
  case Nil
  then show ?case by simp
next
  case (Cons x items)
  obtain i j a b where x: "x = (i, j, a, b)" by (cases x)
  from Cons.prems[of i j a b] obtain r where r: "f i j a b = Inr r" by (auto simp: x)
  from Cons obtain rs where "starmap f (map Some items) = Inr rs" by auto
  with r show ?case by (simp add: x)
qed

lemma square_zero_diag_zeros: "square_zero_diag n (np_zeros n n)"
  by (simp add: square_zero_diag_def np_zeros_def)

lemma np_set_keeps:
  assumes "square_zero_diag n a" "np_set a i j d = Inr a'" "i \<noteq> j"
  shows "square_zero_diag n a'"
proof -
  from assms(2) have ij: "i < nrows a" "j < ncols a"
    and a': "a' = a\<lparr>rows := (rows a)[i := (rows a ! i)[j := d]]\<rparr>"
    by (auto simp: np_set_def split: if_splits)
  show ?thesis
    using assms(1,3) ij unfolding a' square_zero_diag_def
    by (auto simp: nth_list_update)
qed

lemma np_set_total: "square_zero_diag n a \<Longrightarrow> i < n \<Longrightarrow> j < n \<Longrightarrow> \<exists>a'. np_set a i j d = Inr a'"
  by (simp add: np_set_def square_zero_diag_def)

lemma fill_keeps:
  assumes "for_each result (\<lambda>(i, j, d) distances. np_set distances i j d) a = Inr a'"
    "square_zero_diag n a" "\<And>i j d. (i, j, d) \<in> set result \<Longrightarrow> i \<noteq> j"
  shows "square_zero_diag n a'"
  using assms
proof (induction result arbitrary: a)
  case Nil
  then show ?case by simp
next
  case (Cons x result)
  obtain i j d where x: "x = (i, j, d)" by (cases x)
  from Cons.prems(1) obtain b where b: "np_set a i j d = Inr b"
    and rest: "for_each result (\<lambda>(i, j, d) distances. np_set distances i j d) b = Inr a'"
    by (auto simp: x split: sum.splits)
  have "i \<noteq> j" using Cons.prems(3)[of i j d] by (simp add: x)
  then have sq: "square_zero_diag n b" using np_set_keeps[OF Cons.prems(2) b] by simp
  show ?case
  proof (rule Cons.IH[OF rest sq])
    fix i j d assume "(i, j, d) \<in> set result"
    then show "i \<noteq> j" using Cons.prems(3)[of i j d] by simp
  qed
qed

lemma fill_total:
  assumes "square_zero_diag n a" "\<And>i j d. (i, j, d) \<in> set result \<Longrightarrow> i \<noteq> j \<and> i < n \<and> j < n"
  shows "\<exists>a'. for_each result (\<lambda>(i, j, d) distances. np_set distances i j d) a = Inr a'"
  using assms
proof (induction result arbitrary: a)
  case Nil
  then show ?case by simp
next
  case (Cons x result)
  obtain i j d where x: "x = (i, j, d)" by (cases x)
  have ij: "i \<noteq> j" "i < n" "j < n" using Cons.prems(2)[of i j d] by (simp_all add: x)
  then obtain b where b: "np_set a i j d = Inr b" using np_set_total[OF Cons.prems(1), of i j d] by auto
  then have "square_zero_diag n b" using np_set_keeps[OF Cons.prems(1) b] ij by simp
  then obtain a' where "for_each result (\<lambda>(i, j, d) distances. np_set distances i j d) b = Inr a'"
    using Cons.IH[of b] Cons.prems(2) by auto
  with b show ?case by (simp add: x)
qed

lemma iadd_transpose_eq:
  assumes "square_zero_diag n a"
  shows "np_iadd a (np_transpose a) = Inr (a\<lparr>rows := map2 (map2 (+)) (rows a) (rows (np_transpose a))\<rparr>)"
  using assms by (simp add: np_iadd_def np_transpose_def square_zero_diag_def)

lemma iadd_transpose:
  assumes "square_zero_diag n a" "np_iadd a (np_transpose a) = Inr a'"
  shows "nrows a' = n" "ncols a' = n" "length (rows a') = n"
    and "i < n \<Longrightarrow> length (rows a' ! i) = n"
    and "i < n \<Longrightarrow> j < n \<Longrightarrow> rows a' ! i ! j = rows a ! i ! j + rows a ! j ! i"
proof -
  from assms(1) have sh: "nrows a = n" "ncols a = n" "length (rows a) = n"
    and len: "\<And>i. i < n \<Longrightarrow> length (rows a ! i) = n"
    by (auto simp: square_zero_diag_def)
  from assms(2) iadd_transpose_eq[OF assms(1)]
  have a': "a' = a\<lparr>rows := map2 (map2 (+)) (rows a) (rows (np_transpose a))\<rparr>" by simp
  show "nrows a' = n" "ncols a' = n" by (simp_all add: a' sh)
  show "length (rows a') = n" by (simp add: a' np_transpose_def sh)
  show "length (rows a' ! i) = n" if "i < n"
    using that by (simp add: a' np_transpose_def sh len)
  show "rows a' ! i ! j = rows a ! i ! j + rows a ! j ! i" if "i < n" "j < n"
    using that by (simp add: a' np_transpose_def sh len)
qed

lemma item_of_values:
  assumes "p \<in> set (pair_loop (length cv))" "item_of cv p = (i, j, a, b)"
  shows "(i, j) = p \<and> i < j \<and> j < length cv \<and> a \<in> snd ` set cv \<and> b \<in> snd ` set cv"
proof -
  from assms(1) obtain i' j' where p: "p = (i', j')" and ij: "i' < j'" "j' < length cv"
    by (auto simp: set_pair_loop)
  have v: "projr (dict_get cv (map fst cv ! k)) \<in> snd ` set cv" if "k < length cv" for k
  proof -
    from dict_get_item[OF that] obtain v where v: "dict_get cv (map fst cv ! k) = Inr v" by auto
    then have "map_of cv (map fst cv ! k) = Some v"
      by (auto simp: dict_get_def split: option.splits)
    then have "(map fst cv ! k, v) \<in> set cv" by (rule map_of_SomeD)
    then have "v \<in> snd ` set cv" by force
    with v show ?thesis by simp
  qed
  from assms(2) have "i = i'" "j = j'" "a = projr (dict_get cv (map fst cv ! i'))"
    "b = projr (dict_get cv (map fst cv ! j'))"
    by (auto simp: p item_of_def)
  with p ij v[of i'] v[of j'] show ?thesis by simp
qed

lemma result_pairs:
  assumes "starmap (proximity_parallel dtw) (map (\<lambda>p. Some (item_of cv p)) (pair_loop (length cv))) = Inr result"
    "(i, j, d) \<in> set result"
  shows "i < j \<and> j < length cv"
proof -
  have "map (\<lambda>(i, j, d). (i, j)) result = map (\<lambda>(i, j, a, b). (i, j)) (map (item_of cv) (pair_loop (length cv)))"
    using assms(1) starmap_proximity[of dtw "map (item_of cv) (pair_loop (length cv))" result]
    by (simp add: o_def)
  also have "\<dots> = pair_loop (length cv)"
    by (simp add: item_of_def o_def split_def)
  finally have "set (map (\<lambda>(i, j, d). (i, j)) result) = set (pair_loop (length cv))" by simp
  moreover have "(i, j) \<in> set (map (\<lambda>(i, j, d). (i, j)) result)"
    using assms(2) by force
  ultimately show ?thesis by (simp add: set_pair_loop)
qed


text \<open>
  Claim C2. Whenever \<open>calc_proximity_matrix\<close> returns a matrix for a corpus of \<open>N\<close> voyages,
  the matrix is square of size \<open>N\<close>, symmetric, and its diagonal is exactly zero.
\<close>

theorem calc_proximity_matrix_symmetric:
  assumes "calc_proximity_matrix dtw compressed_voyages name = Inr (Some distances)"
  shows "nrows distances = length compressed_voyages \<and> ncols distances = length compressed_voyages
    \<and> wf_ndarray distances
    \<and> (\<forall>i<length compressed_voyages. \<forall>j<length compressed_voyages.
          rows distances ! i ! j = rows distances ! j ! i)
    \<and> (\<forall>i<length compressed_voyages. rows distances ! i ! i = 0)"
proof -
  let ?n = "length compressed_voyages"
  from assms obtain inputs result d0 where
    inp: "create_inputs compressed_voyages = Inr inputs"
    and res: "starmap (proximity_parallel dtw) inputs = Inr result"
    and fill: "for_each result (\<lambda>(i, j, d) distances. np_set distances i j d) (np_zeros ?n ?n) = Inr d0"
    and add: "np_iadd d0 (np_transpose d0) = Inr distances"
    by (auto simp: calc_proximity_matrix_def Let_def split: if_splits sum.splits)
  have "square_zero_diag ?n d0"
  proof (rule fill_keeps[OF fill square_zero_diag_zeros])
    fix i j d assume "(i, j, d) \<in> set result"
    then show "i \<noteq> j" using starmap_valid[OF res create_inputs_valid[OF inp], of i j d] by simp
  qed
  then have diag: "\<And>i. i < ?n \<Longrightarrow> rows d0 ! i ! i = 0"
    by (simp add: square_zero_diag_def)
  note sh = iadd_transpose(1-3)[OF \<open>square_zero_diag ?n d0\<close> add]
  note r = iadd_transpose(4)[OF \<open>square_zero_diag ?n d0\<close> add]
  note e = iadd_transpose(5)[OF \<open>square_zero_diag ?n d0\<close> add]
  have "wf_ndarray distances"
    unfolding wf_ndarray_def list_all_length using sh r by simp
  moreover have "rows distances ! i ! j = rows distances ! j ! i" if "i < ?n" "j < ?n" for i j
    using e[OF that] e[OF that(2,1)] by simp
  moreover have "rows distances ! i ! i = 0" if "i < ?n" for i
    using e[OF that that] diag[OF that] by simp
  ultimately show ?thesis using sh by simp
qed


theorem calc_proximity_matrix_symmetric_witness:
  "calc_proximity_matrix (\<lambda>a b. Inr (real (length a) + 2 * real (length b)))
      [(''v1'', [(0::real, 0::real), (1, 1)]), (''v2'', [(0, 0), (1, 0), (2, 0)]), (''v3'', [(5, 5)])] ''__main__''
     = Inr (Some \<lparr>nrows = 3, ncols = 3, rows = [[0, 8, 4], [8, 0, 5], [4, 5, 0]]\<rparr>)
   \<and> wf_ndarray \<lparr>nrows = 3, ncols = 3, rows = [[0, 8, 4], [8, 0, 5], [4, 5, 0]]\<rparr>
   \<and> rows \<lparr>nrows = 3, ncols = 3, rows = [[0, 8, 4], [8, 0, 5], [4, 5, 0]]\<rparr> ! 0 ! 2
       = rows \<lparr>nrows = 3, ncols = 3, rows = [[0, 8, 4], [8, 0, 5], [4, 5, 0]]\<rparr> ! 2 ! 0
   \<and> rows \<lparr>nrows = 3, ncols = 3, rows = [[0, 8, 4], [8, 0, 5], [4, 5, 0]]\<rparr> ! 1 ! 1 = 0"
proof -
  have ev: "calc_proximity_matrix (\<lambda>a b. Inr (real (length a) + 2 * real (length b)))
      [(''v1'', [(0::real, 0::real), (1, 1)]), (''v2'', [(0, 0), (1, 0), (2, 0)]), (''v3'', [(5, 5)])] ''__main__''
     = Inr (Some \<lparr>nrows = 3, ncols = 3, rows = [[0, 8, 4], [8, 0, 5], [4, 5, 0]]\<rparr>)"
    by (simp add: calc_proximity_matrix_def create_inputs_def number_combinations_def flat_index_def
      int_of_half_def py_setitem_def dict_get_def proximity_parallel_def np_zeros_def np_set_def
      np_iadd_def np_transpose_def upt_rec[of _ "numeral _"] upt_rec[of _ "Suc _"] numeral_2_eq_2
      numeral_3_eq_3)
  from calc_proximity_matrix_symmetric[OF ev] show ?thesis
    using ev by simp
qed

text \<open>
  It does return one, under the name \<^verbatim>\<open>"__main__"\<close>, for a corpus of at most \<open>2\<^sup>2\<^sup>7\<close>
  voyages when the distance function raises on no pair of voyages of the corpus: every
  slot of \<^verbatim>\<open>inputs\<close> has been assigned.
\<close>

lemma calc_proximity_matrix_returns:
  assumes bound: "length compressed_voyages \<le> 2 ^ 27"
    and total: "\<And>a b. a \<in> snd ` set compressed_voyages \<Longrightarrow> b \<in> snd ` set compressed_voyages \<Longrightarrow> \<exists>d. dtw a b = Inr d"
  shows "\<exists>distances. calc_proximity_matrix dtw compressed_voyages ''__main__'' = Inr (Some distances)"
proof -
  let ?n = "length compressed_voyages"
  let ?items = "map (item_of compressed_voyages) (pair_loop ?n)"
  have "\<exists>rs. starmap (proximity_parallel dtw) (map Some ?items) = Inr rs"
  proof (rule starmap_total)
    fix i j a b assume "(i, j, a, b) \<in> set ?items"
    then obtain p where p: "p \<in> set (pair_loop ?n)" "item_of compressed_voyages p = (i, j, a, b)"
      by (auto simp: image_iff)
    have ab: "a \<in> snd ` set compressed_voyages" "b \<in> snd ` set compressed_voyages"
      using item_of_values[OF p] by simp_all
    obtain d where "dtw a b = Inr d" using total[OF ab] ..
    then show "\<exists>r. proximity_parallel dtw i j a b = Inr r" by (simp add: proximity_parallel_def)
  qed
  then obtain result where "starmap (proximity_parallel dtw) (map Some ?items) = Inr result" ..
  then have res: "starmap (proximity_parallel dtw) (map (\<lambda>p. Some (item_of compressed_voyages p)) (pair_loop ?n)) = Inr result"
    by (simp add: o_def)
  have pairs: "i < j \<and> j < ?n" if "(i, j, d) \<in> set result" for i j d
    using result_pairs[OF res that] .
  have "\<exists>d0. for_each result (\<lambda>(i, j, d) distances. np_set distances i j d) (np_zeros ?n ?n) = Inr d0"
  proof (rule fill_total[OF square_zero_diag_zeros])
    fix i j d assume "(i, j, d) \<in> set result"
    then show "i \<noteq> j \<and> i < ?n \<and> j < ?n" using pairs[of i j d] by simp
  qed
  then obtain d0 where fill: "for_each result (\<lambda>(i, j, d) distances. np_set distances i j d) (np_zeros ?n ?n) = Inr d0" ..
  have "square_zero_diag ?n d0"
  proof (rule fill_keeps[OF fill square_zero_diag_zeros])
    fix i j d assume "(i, j, d) \<in> set result"
    then show "i \<noteq> j" using pairs[of i j d] by simp
  qed
  note add = iadd_transpose_eq[OF this]
  show ?thesis
    unfolding calc_proximity_matrix_def create_inputs_eq[OF bound] Let_def
    by (simp add: res fill add)
qed

section \<open>Verification: extending the matrix, and the empty training corpus\<close>

lemma expand_distance_matrix_eq:
  assumes "ncols orig_matrix = length new_distances" "nrows orig_matrix = length new_distances"
  shows "expand_distance_matrix orig_matrix new_distances =
     Inr \<lparr>nrows = nrows orig_matrix + 1, ncols = ncols orig_matrix + 1,
          rows = map2 (@) (rows orig_matrix @ [new_distances]) (map (\<lambda>x. [x]) (new_distances @ [0]))\<rparr>"
  using assms
  by (simp add: expand_distance_matrix_def np_append_axis0_def np_append_axis1_def
      expand_dims_row_def expand_dims_col_def)

text \<open>
  Claim C4. For every \<open>N \<times> N\<close> matrix \<open>M\<close> and every distance vector \<open>v\<close> of length \<open>N\<close>,
  \<open>expand_distance_matrix M v\<close> returns an \<open>(N + 1) \<times> (N + 1)\<close> matrix whose top-left
  \<open>N \<times> N\<close> block is \<open>M\<close>, whose last row and last column are \<open>v\<close> in their first \<open>N\<close>
  places, and whose last diagonal entry is zero.
\<close>

theorem expand_distance_matrix_blocks:
  assumes "wf_ndarray M" "nrows M = N" "ncols M = N" "length v = N"
  shows "\<exists>M'. expand_distance_matrix M v = Inr M'
     \<and> nrows M' = N + 1 \<and> ncols M' = N + 1 \<and> wf_ndarray M'
     \<and> (\<forall>i<N. \<forall>j<N. rows M' ! i ! j = rows M ! i ! j)
     \<and> (\<forall>j<N. rows M' ! N ! j = v ! j)
     \<and> (\<forall>i<N. rows M' ! i ! N = v ! i)
     \<and> rows M' ! N ! N = 0"
proof -
  from assms have len: "length (rows M) = N" and row: "\<And>i. i < N \<Longrightarrow> length (rows M ! i) = N"
    by (auto simp: wf_ndarray_def list_all_length)
  let ?rs = "map2 (@) (rows M @ [v]) (map (\<lambda>x. [x]) (v @ [0]))"
  let ?M' = "\<lparr>nrows = nrows M + 1, ncols = ncols M + 1, rows = ?rs\<rparr>"
  have eq: "expand_distance_matrix M v = Inr ?M'"
    using assms by (intro expand_distance_matrix_eq) simp_all
  have l: "length ?rs = N + 1" using assms len by simp
  have upper: "?rs ! i = rows M ! i @ [v ! i]" if "i < N" for i
    using that assms len by (simp add: nth_append)
  have lower: "?rs ! N = v @ [0]"
    using assms len by (simp add: nth_append)
  have wf: "wf_ndarray ?M'"
    unfolding wf_ndarray_def list_all_length
  proof (intro conjI allI impI)
    show "length (rows ?M') = nrows ?M'" using l assms by simp
  next
    fix i assume "i < length (rows ?M')"
    then have "i < N \<or> i = N" using l by auto
    then show "length (rows ?M' ! i) = ncols ?M'"
      using upper lower row assms by auto
  qed
  have b1: "\<forall>i<N. \<forall>j<N. rows ?M' ! i ! j = rows M ! i ! j"
    using upper row by (simp add: nth_append)
  have b2: "\<forall>j<N. rows ?M' ! N ! j = v ! j"
    using lower assms by (simp add: nth_append)
  have b3: "\<forall>i<N. rows ?M' ! i ! N = v ! i"
    using upper row by (simp add: nth_append)
  have b4: "rows ?M' ! N ! N = 0"
    using lower assms by (simp add: nth_append)
  show ?thesis
  proof (intro exI conjI)
    show "expand_distance_matrix M v = Inr ?M'" by (rule eq)
    show "nrows ?M' = N + 1" "ncols ?M' = N + 1" using assms by simp_all
    show "wf_ndarray ?M'" by (rule wf)
  qed (rule b1 b2 b3 b4)+
qed

theorem expand_distance_matrix_blocks_witness:
  "\<exists>M'. expand_distance_matrix \<lparr>nrows = 2, ncols = 2, rows = [[0, 3], [3, 0]]\<rparr> [7, 8] = Inr M'
     \<and> nrows M' = 3 \<and> ncols M' = 3 \<and> wf_ndarray M'
     \<and> rows M' ! 0 ! 1 = 3 \<and> rows M' ! 1 ! 0 = 3
     \<and> rows M' ! 2 ! 0 = 7 \<and> rows M' ! 2 ! 1 = 8
     \<and> rows M' ! 0 ! 2 = 7 \<and> rows M' ! 1 ! 2 = 8
     \<and> rows M' ! 2 ! 2 = 0"
proof -
  have wf: "wf_ndarray \<lparr>nrows = 2, ncols = 2, rows = [[0, 3], [3, 0]]\<rparr>"
    by (simp add: wf_ndarray_def)
  from expand_distance_matrix_blocks[OF wf, of 2 "[7, 8]"]
  show ?thesis by (auto simp add: numeral_2_eq_2 less_Suc_eq all_conj_distrib numeral_3_eq_3)
qed

text \<open>
  With an empty training corpus, whose distance matrix is the \<open>0 \<times> 0\<close> array that
  \<open>calc_proximity_matrix\<close> returns for it, \<open>predict_single_voyage\<close> hands the \<open>1 \<times> 1\<close>
  zero matrix to the clusterer and returns what the clusterer says of its only point.
\<close>

lemma predict_single_voyage_no_check:
  "predict_single_voyage DBSCAN dtw [] (np_zeros 0 0) new_voyage epsilon =
     (case DBSCAN epsilon (np_zeros 1 1) of Inl e \<Rightarrow> Inl e | Inr labels \<Rightarrow> py_last labels)"
  by (simp add: predict_single_voyage_def calc_extra_distance_def expand_distance_matrix_def
      np_append_axis0_def np_append_axis1_def expand_dims_row_def expand_dims_col_def np_zeros_def)

lemma dbscan_single_point:
  assumes "0 < epsilon" "2 \<le> min_points"
  shows "dbscan min_points epsilon (np_zeros 1 1) = Inr [- 1]"
proof -
  have "\<not> dense min_points epsilon (np_zeros 1 1) 0"
    using assms by (simp add: dense_def np_zeros_def)
  then have "dbscan_labels min_points epsilon (np_zeros 1 1) = [- 1]"
    by (simp add: dbscan_labels_def np_zeros_def)
  then show ?thesis using assms by (simp add: dbscan_def np_zeros_def)
qed

lemma calc_proximity_matrix_empty:
  "calc_proximity_matrix dtw [] ''__main__'' = Inr (Some (np_zeros 0 0))"
  by (simp add: calc_proximity_matrix_def create_inputs_def number_combinations_def
      int_of_half_def np_zeros_def np_iadd_def np_transpose_def)

text \<open>
  Claim C3, as amended. The claim is that \<open>predict_single_voyage\<close> fails explicitly on an
  empty training corpus. It does not: for every new voyage and every radius
  \<open>epsilon > 0\<close>, the call with an empty corpus and its empty matrix raises nothing and
  returns the noise label \<open>-1\<close>, the label DBSCAN (with its default of 5 minimum points)
  gives the single point of the extended matrix.
\<close>

theorem predict_single_voyage_empty_corpus:
  assumes "0 < epsilon"
  shows "predict_single_voyage (dbscan 5) dtw [] (np_zeros 0 0) new_voyage epsilon = Inr (- 1)"
  using dbscan_single_point[OF assms, of 5]
  by (simp add: predict_single_voyage_no_check py_last_def)

theorem predict_single_voyage_empty_corpus_witness:
  "predict_single_voyage (dbscan 5) (\<lambda>a b. Inr \<bar>a - b\<bar>) [] (np_zeros 0 0) (4::real) 12 = Inr (- 1)"
  using predict_single_voyage_empty_corpus[of 12 "\<lambda>a b. Inr \<bar>a - b\<bar>" "4::real"] by simp

text \<open>
  The claim as stated fails at the radius 12 the repository uses: the call returns a
  label, not an error.
\<close>

theorem predict_single_voyage_empty_corpus_counterexample:
  "predict_single_voyage (dbscan 5) (\<lambda>a b. Inr (real (length a) + real (length b))) []
      (np_zeros 0 0) [(10.5 :: real, 57.1 :: real), (10.6, 57.2), (10.8, 57.2)] 12 = Inr (- 1)"
  by (simp add: predict_single_voyage_def calc_extra_distance_def expand_distance_matrix_def
      np_append_axis0_def np_append_axis1_def expand_dims_row_def expand_dims_col_def np_zeros_def
      dbscan_def dbscan_labels_def dense_def py_last_def)

section \<open>Verification: the simplifier\<close>

lemma simplify_short: "length points < 3 \<Longrightarrow> simplify pldist points epsilon = points"
  by (subst simplify.simps) simp

lemma simplify_keep:
  "\<not> length points < 3 \<Longrightarrow> \<not> snd (farthest pldist points) > epsilon \<Longrightarrow>
     simplify pldist points epsilon = [hd points, last points]"
  by (subst simplify.simps) simp

lemma simplify_split:
  "\<not> length points < 3 \<Longrightarrow> snd (farthest pldist points) > epsilon \<Longrightarrow>
     simplify pldist points epsilon =
       butlast (simplify pldist (take (fst (farthest pldist points) + 1) points) epsilon)
       @ simplify pldist (drop (fst (farthest pldist points)) points) epsilon"
  by (subst simplify.simps) (simp add: Let_def)

lemma simplify_length_ge2:
  "2 \<le> length points \<Longrightarrow> 2 \<le> length (simplify pldist points epsilon)"
proof (induction pldist points epsilon rule: simplify.induct)
  case (1 pldist points epsilon)
  show ?case
  proof (cases "length points < 3")
    case True
    then show ?thesis using "1.prems" by (simp add: simplify_short)
  next
    case False
    note long = this
    show ?thesis
    proof (cases "snd (farthest pldist points) > epsilon")
      case True
      let ?k = "fst (farthest pldist points)"
      have k: "1 \<le> ?k" "?k + 1 < length points"
        using farthest_interior[of points pldist] long by auto
      then have "2 \<le> length (drop ?k points)" by simp
      then have "2 \<le> length (simplify pldist (drop ?k points) epsilon)"
        using "1.IH"(2)[OF long refl refl True] by simp
      then show ?thesis by (simp add: simplify_split[OF long True])
    next
      case False
      then show ?thesis by (simp add: simplify_keep[OF long])
    qed
  qed
qed

lemma subseq_ends:
  assumes "2 \<le> length xs"
  shows "subseq [hd xs, last xs] xs"
proof -
  obtain x ys where xs1: "xs = x # ys" using assms by (cases xs) auto
  with assms have "ys \<noteq> []" by auto
  note xs = xs1 this
  then have "ys = butlast ys @ [last ys]" by simp
  then have "subseq ([] @ [last ys]) (butlast ys @ [last ys])"
    by (intro list_emb_append_mono) simp_all
  then have "subseq [last ys] ys" using xs(2) by simp
  then show ?thesis using xs by simp
qed

lemma simplify_ends_subseq:
  "subseq (simplify pldist points epsilon) points
   \<and> (points \<noteq> [] \<longrightarrow> simplify pldist points epsilon \<noteq> []
        \<and> hd (simplify pldist points epsilon) = hd points
        \<and> last (simplify pldist points epsilon) = last points)"
proof (induction pldist points epsilon rule: simplify.induct)
  case (1 pldist points epsilon)
  show ?case
  proof (cases "length points < 3")
    case True
    then show ?thesis by (simp add: simplify_short)
  next
    case False
    note long = this
    show ?thesis
    proof (cases "snd (farthest pldist points) > epsilon")
      case True
      let ?k = "fst (farthest pldist points)"
      let ?r1 = "simplify pldist (take (?k + 1) points) epsilon"
      let ?r2 = "simplify pldist (drop ?k points) epsilon"
      have k: "1 \<le> ?k" "?k + 1 < length points"
        using farthest_interior[of points pldist] long by auto
      have tk: "take (?k + 1) points = take ?k points @ [points ! ?k]"
        using k by (simp add: take_Suc_conv_app_nth)
      have ne: "points \<noteq> []" "take (?k + 1) points \<noteq> []" "drop ?k points \<noteq> []"
        using k by auto
      have "hd (take (?k + 1) points) = hd points" using ne(1) by (cases points) simp_all
      moreover have "last (take (?k + 1) points) = points ! ?k" unfolding tk by simp
      ultimately have ih1: "subseq ?r1 (take (?k + 1) points)" "?r1 \<noteq> []" "hd ?r1 = hd points"
        "last ?r1 = points ! ?k"
        using "1.IH"(1)[OF long refl refl True] ne(2) by auto
      have "last (drop ?k points) = last points" using k by simp
      moreover have "hd (drop ?k points) = points ! ?k" using k by (simp add: hd_drop_conv_nth)
      ultimately have ih2: "subseq ?r2 (drop ?k points)" "?r2 \<noteq> []" "last ?r2 = last points"
        "hd ?r2 = points ! ?k"
        using "1.IH"(2)[OF long refl refl True] ne(3) by auto
      have r1: "?r1 = butlast ?r1 @ [points ! ?k]"
        using ih1(2,4) by (metis append_butlast_last_id)
      have "subseq (butlast ?r1 @ [points ! ?k]) (take ?k points @ [points ! ?k])"
        using ih1(1) r1 unfolding tk by metis
      then have "subseq (butlast ?r1) (take ?k points)" by simp
      then have "subseq (butlast ?r1 @ ?r2) (take ?k points @ drop ?k points)"
        using ih2(1) by (rule list_emb_append_mono)
      then have s: "subseq (butlast ?r1 @ ?r2) points" by simp
      have h: "hd (butlast ?r1 @ ?r2) = hd points"
      proof (cases "butlast ?r1 = []")
        case True
        with r1 have "?r1 = [points ! ?k]" by simp
        with ih1(3) have "points ! ?k = hd points" by simp
        then show ?thesis using True ih2(4) by simp
      next
        case False
        then have "hd (butlast ?r1 @ ?r2) = hd (butlast ?r1)" by simp
        also have "\<dots> = hd ?r1" using False r1 by (metis hd_append2)
        finally show ?thesis using ih1(3) by simp
      qed
      have l: "last (butlast ?r1 @ ?r2) = last points" using ih2(2,3) by simp
      show ?thesis using s h l ih2(2) by (simp add: simplify_split[OF long True])
    next
      case False
      have "2 \<le> length points" using long by simp
      then show ?thesis using subseq_ends[of points] by (simp add: simplify_keep[OF long False])
    qed
  qed
qed

text \<open>
  Claim C7. For every point sequence and every \<open>epsilon\<close>, the simplification that
  \<open>compute_compressed_voyage\<close> returns is an ordered subsequence of the input, no longer
  than the input, and its first and last points are the input's first and last points.
\<close>

theorem simplify_subsequence:
  "subseq (snd (compute_compressed_voyage (simplify pldist) vid coords epsilon)) coords
   \<and> length (snd (compute_compressed_voyage (simplify pldist) vid coords epsilon)) \<le> length coords
   \<and> (coords \<noteq> [] \<longrightarrow>
        hd (snd (compute_compressed_voyage (simplify pldist) vid coords epsilon)) = hd coords
      \<and> last (snd (compute_compressed_voyage (simplify pldist) vid coords epsilon)) = last coords)"
  using simplify_ends_subseq[of pldist coords epsilon]
  by (auto simp: compute_compressed_voyage_def dest: list_emb_length)

theorem simplify_subsequence_witness:
  "snd (compute_compressed_voyage (simplify perpendicular_distance) ''v1'' [(0, 0), (1, 1), (2, 0)] 1)
     = [(0, 0), (2, 0)]
   \<and> subseq [(0, 0), (2, 0)] [(0 :: real, 0 :: real), (1, 1), (2, 0)]
   \<and> hd (snd (compute_compressed_voyage (simplify perpendicular_distance) ''v1''
          [(0, 0), (1, 1), (2, 0)] 1)) = (0, 0)
   \<and> last (snd (compute_compressed_voyage (simplify perpendicular_distance) ''v1''
          [(0, 0), (1, 1), (2, 0)] 1)) = (2, 0)"
proof -
  have ev: "snd (compute_compressed_voyage (simplify perpendicular_distance) ''v1''
      [(0, 0), (1, 1), (2, 0)] 1) = [(0, 0), (2, 0)]"
    by (simp add: compute_compressed_voyage_def simplify.simps farthest_def
        perpendicular_distance_def)
  from simplify_subsequence[of perpendicular_distance "''v1''" "[(0, 0), (1, 1), (2, 0)]" 1]
  show ?thesis unfolding ev by simp
qed

lemma simplify_length_mono:
  "epsilon1 \<le> epsilon2 \<Longrightarrow>
     length (simplify pldist points epsilon2) \<le> length (simplify pldist points epsilon1)"
proof (induction pldist points epsilon2 rule: simplify.induct)
  case (1 pldist points epsilon2)
  show ?case
  proof (cases "length points < 3")
    case True
    then show ?thesis by (simp add: simplify_short)
  next
    case False
    note long = this
    show ?thesis
    proof (cases "snd (farthest pldist points) > epsilon2")
      case True
      then have True1: "snd (farthest pldist points) > epsilon1" using "1.prems" by simp
      let ?k = "fst (farthest pldist points)"
      have a: "length (simplify pldist (take (?k + 1) points) epsilon2)
          \<le> length (simplify pldist (take (?k + 1) points) epsilon1)"
        using "1.IH"(1)[OF long refl refl True "1.prems"] .
      have b: "length (simplify pldist (drop ?k points) epsilon2)
          \<le> length (simplify pldist (drop ?k points) epsilon1)"
        using "1.IH"(2)[OF long refl refl True "1.prems"] .
      show ?thesis
        using a b by (simp add: simplify_split[OF long True] simplify_split[OF long True1])
    next
      case False
      have "2 \<le> length (simplify pldist points epsilon1)"
        using long by (intro simplify_length_ge2) simp
      then show ?thesis by (simp add: simplify_keep[OF long False])
    qed
  qed
qed

text \<open>
  Claim C8. For every point sequence and every pair of tolerances
  \<open>epsilon1 \<le> epsilon2\<close>, simplification at \<open>epsilon1\<close> retains at least as many points
  as simplification at \<open>epsilon2\<close>.
\<close>

theorem simplify_monotone:
  assumes "epsilon1 \<le> epsilon2"
  shows "length (snd (compute_compressed_voyage (simplify pldist) vid coords epsilon2))
       \<le> length (snd (compute_compressed_voyage (simplify pldist) vid coords epsilon1))"
  using simplify_length_mono[OF assms] by (simp add: compute_compressed_voyage_def)

theorem simplify_monotone_witness:
  "length (snd (compute_compressed_voyage (simplify perpendicular_distance) ''v1''
              [(0, 0), (1, 1), (2, 0)] 1))
     \<le> length (snd (compute_compressed_voyage (simplify perpendicular_distance) ''v1''
              [(0, 0), (1, 1), (2, 0)] (1 / 2)))
   \<and> snd (compute_compressed_voyage (simplify perpendicular_distance) ''v1''
              [(0, 0), (1, 1), (2, 0)] (1 / 2)) = [(0, 0), (1, 1), (2, 0)]"
proof -
  have le: "(1 / 2 :: real) \<le> 1" by simp
  have ev: "snd (compute_compressed_voyage (simplify perpendicular_distance) ''v1''
      [(0, 0), (1, 1), (2, 0)] (1 / 2)) = [(0, 0), (1, 1), (2, 0)]"
    by (simp add: compute_compressed_voyage_def simplify.simps farthest_def
        perpendicular_distance_def)
  from simplify_monotone[OF le, of perpendicular_distance "''v1''" "[(0, 0), (1, 1), (2, 0)]"] ev
  show ?thesis by simp
qed

section \<open>Verification: the \<open>name\<close> guard\<close>

text \<open>
  \<open>compress_voyages\<close> reads its frame before it looks at \<open>name\<close>: on a frame whose index
  has no level \<^verbatim>\<open>IMO\<close>, or only that level, or that lacks one of the three columns, it
  raises whatever the \<open>name\<close> is.
\<close>

lemma compress_voyages_no_level:
  "Some ''IMO'' \<notin> set (index_names df)
    \<Longrightarrow> compress_voyages rdp cpu_count df epsilon name = Inl KeyError"
  by (simp add: compress_voyages_def droplevel_def count_list_0_iff)

lemma compress_voyages_only_level:
  "index_names df = [Some ''IMO'']
    \<Longrightarrow> compress_voyages rdp cpu_count df epsilon name = Inl ValueError"
  by (simp add: compress_voyages_def droplevel_def)

lemma compress_voyages_no_column:
  assumes "count_list (index_names df) (Some ''IMO'') = 1" "2 \<le> length (index_names df)"
    and "voyage_id df = None \<or> Longitude df = None \<or> Latitude df = None"
  shows "compress_voyages rdp cpu_count df epsilon name = Inl KeyError"
proof -
  have "Some ''IMO'' \<in> set (index_names df)"
    using assms(1) count_list_0_iff[of "index_names df" "Some ''IMO''"] by auto
  then show ?thesis
    using assms by (auto simp: compress_voyages_def droplevel_def select_columns_def)
qed

text \<open>
  Claim C10, as amended. The claim is that with a \<open>name\<close> other than \<^verbatim>\<open>"__main__"\<close> both
  functions do nothing and return \<^verbatim>\<open>None\<close>. What holds: with such a \<open>name\<close>,
  \<open>calc_proximity_matrix\<close> returns \<^verbatim>\<open>None\<close> whatever its corpus is, and \<open>compress_voyages\<close>
  returns \<^verbatim>\<open>None\<close> on every frame that its first line accepts: one whose index has exactly
  one level named \<^verbatim>\<open>IMO\<close> and another level beside it, and that has the columns
  \<^verbatim>\<open>voyage_id\<close>, \<^verbatim>\<open>Longitude\<close> and \<^verbatim>\<open>Latitude\<close>; the tolerance and the simplification and
  distance functions are not used.
\<close>

theorem name_guard:
  assumes "name \<noteq> ''__main__''"
    and "count_list (index_names df) (Some ''IMO'') = 1" and "2 \<le> length (index_names df)"
    and "voyage_id df \<noteq> None" and "Longitude df \<noteq> None" and "Latitude df \<noteq> None"
  shows "compress_voyages rdp cpu_count df epsilon name = Inr None
       \<and> calc_proximity_matrix dtw compressed_voyages name = Inr None"
proof -
  have "Some ''IMO'' \<in> set (index_names df)"
    using assms(2) count_list_0_iff[of "index_names df" "Some ''IMO''"] by auto
  then show ?thesis
    using assms
    by (auto simp: compress_voyages_def droplevel_def select_columns_def calc_proximity_matrix_def)
qed

theorem name_guard_witness:
  "compress_voyages (simplify perpendicular_distance) 8
      \<lparr>index_names = [Some ''IMO'', None], voyage_id = Some [''v1'', ''v1'', ''v1''],
       Longitude = Some [0, 1, 2], Latitude = Some [0, 1, 0]\<rparr> (3 / 1000) ''name''
     = Inr None
   \<and> calc_proximity_matrix (\<lambda>a b. Inr (real (length a) + real (length b)))
      [(''v1'', [(0 :: real, 0 :: real), (1, 1)]), (''v2'', [(0, 0), (1, 0), (2, 0)])] ''name'' = Inr None"
  by (rule name_guard) simp_all

text \<open>
  The claim as stated fails: on the frame that \<^verbatim>\<open>main\<close> of prediction\_pipeline.py passes,
  from which it has dropped the level \<^verbatim>\<open>IMO\<close> already, \<open>compress_voyages\<close> raises \<^verbatim>\<open>KeyError\<close>
  under the default \<open>name\<close>, and returns no \<^verbatim>\<open>None\<close>.
\<close>

theorem name_guard_counterexample:
  "compress_voyages (simplify perpendicular_distance) 8
      \<lparr>index_names = [None], voyage_id = Some [''v1'', ''v1'', ''v1''],
       Longitude = Some [0, 1, 2], Latitude = Some [0, 1, 0]\<rparr> (1 / 100) ''name''
     = Inl KeyError"
  by (simp add: compress_voyages_def droplevel_def)

text \<open>
  Under the name \<^verbatim>\<open>"__main__"\<close> neither function returns \<^verbatim>\<open>None\<close>: on a frame that its first
  line accepts, \<open>compress_voyages\<close> returns a corpus on a machine with at least two CPUs,
  and raises on one with a single CPU, where its pool would have no process.
\<close>

lemma compress_voyages_not_None:
  "compress_voyages rdp cpu_count df epsilon ''__main__'' \<noteq> Inr None"
  by (auto simp: compress_voyages_def Let_def split: sum.splits)

lemma compress_voyages_main:
  assumes "2 \<le> cpu_count"
    and "count_list (index_names df) (Some ''IMO'') = 1" and "2 \<le> length (index_names df)"
    and "voyage_id df \<noteq> None" and "Longitude df \<noteq> None" and "Latitude df \<noteq> None"
  shows "\<exists>result. compress_voyages rdp cpu_count df epsilon ''__main__'' = Inr (Some result)"
proof -
  have "Some ''IMO'' \<in> set (index_names df)"
    using assms(2) count_list_0_iff[of "index_names df" "Some ''IMO''"] by auto
  then show ?thesis
    using assms by (auto simp: compress_voyages_def droplevel_def select_columns_def Let_def)
qed

lemma compress_voyages_single_cpu:
  assumes "cpu_count \<le> 1"
    and "count_list (index_names df) (Some ''IMO'') = 1" and "2 \<le> length (index_names df)"
    and "voyage_id df \<noteq> None" and "Longitude df \<noteq> None" and "Latitude df \<noteq> None"
  shows "compress_voyages rdp cpu_count df epsilon ''__main__'' = Inl ValueError"
proof -
  have "Some ''IMO'' \<in> set (index_names df)"
    using assms(2) count_list_0_iff[of "index_names df" "Some ''IMO''"] by auto
  then show ?thesis
    using assms by (auto simp: compress_voyages_def droplevel_def select_columns_def Let_def)
qed

lemma calc_proximity_matrix_not_None:
  "calc_proximity_matrix dtw compressed_voyages ''__main__'' \<noteq> Inr None"
  by (auto simp: calc_proximity_matrix_def Let_def split: sum.splits)

section \<open>Verification: configuration errors\<close>





section \<open>Verification: the incremental classifier leaves its inputs unchanged\<close>

lemma extends_trans: "extends s s1 \<Longrightarrow> extends s1 s2 \<Longrightarrow> extends s s2"
  by (auto simp: extends_def)

lemma extends_alloc: "alloc s x = (r, s') \<Longrightarrow> extends s s' \<and> r = length s"
  by (auto simp: alloc_def extends_def nth_append)

lemma calc_extra_distance_st_extends:
  assumes "calc_extra_distance_st dtw s train_voyages new_voyage = Inr (r, s')"
  shows "extends s s' \<and> r = length s"
  using assms by (auto simp: calc_extra_distance_st_def split: sum.splits dest: extends_alloc)

lemma expand_distance_matrix_st_extends:
  assumes "expand_distance_matrix_st s orig_matrix new_distances = Inr (r, s')"
  shows "extends s s' \<and> length s \<le> r \<and> r < length s'"
proof -
  from assms obtain orig v tm res where
    "s' = s @ [Matrix (expand_dims_row v), Matrix tm, Vector (v @ [0]),
               Matrix (expand_dims_col (v @ [0])), Matrix res]"
    "r = length s + 4"
    by (auto simp: expand_distance_matrix_st_def alloc_def Let_def split: sum.splits)
  then show ?thesis by (simp add: extends_def nth_append)
qed

lemma writes_only_argument_on_store: "writes_only_argument (on_store clusterer)"
  by (auto simp: writes_only_argument_def on_store_def split: sum.splits)

text \<open>
  Claim C9. For every training corpus, training distance matrix and new voyage,
  \<open>predict_single_voyage\<close> leaves the matrix and the corpus it is given unchanged: every
  array that exists before the call holds after it what it held before. The extended
  matrix is a new array (the clusterer is given a reference that did not exist before),
  used for the one label that is returned.
\<close>

theorem predict_single_voyage_frame:
  assumes "writes_only_argument DBSCAN"
    and "predict_single_voyage_st DBSCAN dtw s train_voyages distance_matrix new_voyage epsilon
           = Inr (label, s')"
  shows "length s \<le> length s' \<and> (\<forall>a<length s. s' ! a = s ! a)"
proof -
  from assms(2) obtain new_distance_array s1 new_distance_matrix s2 labels where
    a: "calc_extra_distance_st dtw s train_voyages new_voyage = Inr (new_distance_array, s1)"
    and b: "expand_distance_matrix_st s1 distance_matrix new_distance_array = Inr (new_distance_matrix, s2)"
    and c: "DBSCAN epsilon s2 new_distance_matrix = Inr (labels, s')"
    by (auto simp: predict_single_voyage_st_def split: sum.splits prod.splits)
  from calc_extra_distance_st_extends[OF a] have e1: "extends s s1" by simp
  from expand_distance_matrix_st_extends[OF b] have e2: "extends s1 s2" and fresh: "length s1 \<le> new_distance_matrix"
    by simp_all
  have e12: "extends s s2" using e1 e2 by (rule extends_trans)
  from assms(1) c have w: "length s2 \<le> length s'" "\<And>a. a < length s2 \<Longrightarrow> a \<noteq> new_distance_matrix \<Longrightarrow> s' ! a = s2 ! a"
    unfolding writes_only_argument_def by blast+
  have "s' ! a = s ! a" if "a < length s" for a
  proof -
    from that e1 have "a < length s1" by (simp add: extends_def)
    with fresh have "a \<noteq> new_distance_matrix" by simp
    moreover have "a < length s2" using that e12 by (simp add: extends_def)
    ultimately have "s' ! a = s2 ! a" by (rule w(2)[rotated])
    also have "\<dots> = s ! a" using e12 that by (simp add: extends_def)
    finally show ?thesis .
  qed
  moreover have "length s \<le> length s'" using e12 w(1) by (simp add: extends_def)
  ultimately show ?thesis by simp
qed


theorem predict_single_voyage_frame_witness:
  "\<exists>label s'. predict_single_voyage_st (on_store (dbscan 5))
        (\<lambda>a b. Inr \<bar>real (nrows a) - real (nrows b)\<bar>)
        [Matrix \<lparr>nrows = 2, ncols = 2, rows = [[0, 0], [1, 0]]\<rparr>,
         Matrix \<lparr>nrows = 3, ncols = 2, rows = [[0, 0], [1, 0], [2, 0]]\<rparr>,
         Matrix \<lparr>nrows = 2, ncols = 2, rows = [[0, 1], [1, 0]]\<rparr>,
         Matrix \<lparr>nrows = 2, ncols = 2, rows = [[0, 0], [5, 5]]\<rparr>]
        [(''v1'', 0), (''v2'', 1)] 2 3 12 = Inr (label, s')
     \<and> label = - 1
     \<and> length s' = 10
     \<and> s' ! 0 = Matrix \<lparr>nrows = 2, ncols = 2, rows = [[0, 0], [1, 0]]\<rparr>
     \<and> s' ! 1 = Matrix \<lparr>nrows = 3, ncols = 2, rows = [[0, 0], [1, 0], [2, 0]]\<rparr>
     \<and> s' ! 2 = Matrix \<lparr>nrows = 2, ncols = 2, rows = [[0, 1], [1, 0]]\<rparr>
     \<and> s' ! 9 = Matrix \<lparr>nrows = 3, ncols = 3, rows = [[0, 1, 0], [1, 0, 1], [0, 1, 0]]\<rparr>"
proof -
  let ?s = "[Matrix \<lparr>nrows = 2, ncols = 2, rows = [[0, 0], [1, 0]]\<rparr>,
         Matrix \<lparr>nrows = 3, ncols = 2, rows = [[0, 0], [1, 0], [2, 0]]\<rparr>,
         Matrix \<lparr>nrows = 2, ncols = 2, rows = [[0, 1], [1, 0]]\<rparr>,
         Matrix \<lparr>nrows = 2, ncols = 2, rows = [[0, 0], [5, 5]]\<rparr>]"
  let ?s' = "?s @ [Vector [0, 1], Matrix \<lparr>nrows = 1, ncols = 2, rows = [[0, 1]]\<rparr>,
       Matrix \<lparr>nrows = 3, ncols = 2, rows = [[0, 1], [1, 0], [0, 1]]\<rparr>,
       Vector [0, 1, 0],
       Matrix \<lparr>nrows = 3, ncols = 1, rows = [[0], [1], [0]]\<rparr>,
       Matrix \<lparr>nrows = 3, ncols = 3, rows = [[0, 1, 0], [1, 0, 1], [0, 1, 0]]\<rparr>]"
  have ev: "predict_single_voyage_st (on_store (dbscan 5))
        (\<lambda>a b. Inr \<bar>real (nrows a) - real (nrows b)\<bar>) ?s [(''v1'', 0), (''v2'', 1)] 2 3 12
      = Inr (- 1, ?s')"
    by (simp add: predict_single_voyage_st_def calc_extra_distance_st_def
        expand_distance_matrix_st_def get_matrix_def get_vector_def alloc_def
        np_append_axis0_def np_append_axis1_def expand_dims_row_def expand_dims_col_def
        on_store_def dbscan_def dbscan_labels_def dense_def grow_def py_last_def
        upt_rec[of _ "numeral _"] upt_rec[of _ "Suc _"] numeral_2_eq_2 numeral_3_eq_3)
  from predict_single_voyage_frame[OF writes_only_argument_on_store ev]
  show ?thesis unfolding ev by simp
qed

text \<open>
  The label is the one the function on values computes, when the clusterer reads its
  matrix from the store.
\<close>

lemma get_matrix_append: "get_matrix s r = Inr a \<Longrightarrow> get_matrix (s @ t) r = Inr a"
  by (auto simp: get_matrix_def nth_append split: if_splits)

lemma try_map_refs:
  assumes "list_all2 (\<lambda>(k, r) (k', a). k' = k \<and> get_matrix s r = Inr a) train_refs train_voyages"
    and "get_matrix s new_voyage = Inr nv"
  shows "try_map (\<lambda>r. case get_matrix s r of Inl e \<Rightarrow> Inl e
                          | Inr voyage \<Rightarrow>
                            (case get_matrix s new_voyage of Inl e \<Rightarrow> Inl e
                             | Inr nv \<Rightarrow> dtw voyage nv)) (map snd train_refs)
       = try_map (\<lambda>voyage. dtw voyage nv) (map snd train_voyages)"
  using assms(1)
  by (induction rule: list_all2_induct) (auto simp: assms(2) split: sum.splits)

lemma expand_distance_matrix_st_value:
  assumes "get_matrix s orig_matrix = Inr M" "get_vector s new_distances = Inr v"
  shows "expand_distance_matrix_st s orig_matrix new_distances =
     (case expand_distance_matrix M v of Inl e \<Rightarrow> Inl e
      | Inr res \<Rightarrow> Inr (length s + 4, s @ [Matrix (expand_dims_row v),
            Matrix \<lparr>nrows = nrows M + 1, ncols = ncols M, rows = rows M @ [v]\<rparr>,
            Vector (v @ [0]), Matrix (expand_dims_col (v @ [0])), Matrix res]))"
  using assms
  by (auto simp: expand_distance_matrix_st_def expand_distance_matrix_def alloc_def Let_def
      np_append_axis0_def expand_dims_row_def split: sum.splits)

lemma predict_single_voyage_st_label:
  assumes "list_all2 (\<lambda>(k, r) (k', a). k' = k \<and> get_matrix s r = Inr a) train_refs train_voyages"
    and "get_matrix s distance_matrix = Inr M" and "get_matrix s new_voyage = Inr nv"
  shows "(case predict_single_voyage_st (on_store clusterer) dtw s train_refs distance_matrix
                 new_voyage epsilon of Inl e \<Rightarrow> Inl e | Inr (label, s') \<Rightarrow> Inr label)
       = predict_single_voyage clusterer dtw train_voyages M nv epsilon"
proof (cases "calc_extra_distance dtw train_voyages nv")
  case (Inl e)
  then show ?thesis
    using try_map_refs[OF assms(1,3), of dtw]
    by (simp add: predict_single_voyage_st_def predict_single_voyage_def
        calc_extra_distance_st_def calc_extra_distance_def)
next
  case (Inr distances)
  let ?s1 = "s @ [Vector distances]"
  have a: "calc_extra_distance_st dtw s train_refs new_voyage = Inr (length s, ?s1)"
    using try_map_refs[OF assms(1,3), of dtw] Inr
    by (simp add: calc_extra_distance_st_def calc_extra_distance_def alloc_def)
  have m: "get_matrix ?s1 distance_matrix = Inr M" using assms(2) by (rule get_matrix_append)
  have v: "get_vector ?s1 (length s) = Inr distances" by (simp add: get_vector_def)
  note ex = expand_distance_matrix_st_value[OF m v]
  show ?thesis
  proof (cases "expand_distance_matrix M distances")
    case (Inl e)
    with ex Inr a show ?thesis
      by (simp add: predict_single_voyage_st_def predict_single_voyage_def)
  next
    case (Inr res)
    with ex a \<open>calc_extra_distance dtw train_voyages nv = Inr distances\<close> show ?thesis
      by (simp add: predict_single_voyage_st_def predict_single_voyage_def on_store_def
          get_matrix_def nth_append split: sum.splits)
  qed
qed

section \<open>Verification: the evaluation harness\<close>

text \<open>
  \<open>do_k_fold_validation\<close> compares the oracle with the predictions of the test voyages
  only, for every input: its \<open>y_pred\<close> is \<open>test_bin\<close> updated with itself.
\<close>

lemma dict_update_distinct:
  "distinct (map fst d) \<Longrightarrow> distinct (map fst (dict_update d items))"
  unfolding dict_update_def
  by (induction items arbitrary: d) (auto simp: AList.distinct_update)

lemma dict_of_items_distinct: "distinct (map fst (dict_of_items items))"
  unfolding dict_of_items_def by (rule dict_update_distinct) simp

lemma dict_update_subset:
  assumes "distinct (map fst d)" "set items \<subseteq> set d"
  shows "dict_update d items = d"
  using assms(2)
proof (induction items)
  case Nil
  then show ?case by (simp add: dict_update_def)
next
  case (Cons x items)
  obtain k v where x: "x = (k, v)" by (cases x)
  with Cons.prems have "(k, v) \<in> set d" by simp
  with assms(1) have "map_of d k = Some v" by simp
  then have "AList.update k v d = d" by (rule AList.update_triv)
  with Cons show ?case by (simp add: dict_update_def x)
qed

lemma make_binary_class_update_self:
  "dict_update (make_binary_class p) (make_binary_class p) = make_binary_class p"
  by (rule dict_update_subset) (simp_all add: make_binary_class_def dict_of_items_distinct)

lemma do_k_fold_validation_test_only:
  "do_k_fold_validation confusion_matrix DBSCAN dtw compressed_voyages train_ids test_ids
       voyage_classes_all name =
     (case predict_voyages DBSCAN dtw compressed_voyages train_ids test_ids name 12 of
        Inl e \<Rightarrow> Inl e
      | Inr (train_pred, test_pred) \<Rightarrow>
          compare_with_oracle confusion_matrix voyage_classes_all (make_binary_class test_pred))"
  by (simp add: do_k_fold_validation_def Let_def make_binary_class_update_self
      split: sum.splits prod.splits)

lemma predict_voyages_example:
  "predict_voyages (dbscan 5) (\<lambda>a b. Inr \<bar>real (length a) - real (length b)\<bar>)
      [(''v1'', [(0 :: real, 0 :: real), (1, 0)]), (''v2'', [(0, 0), (1, 0), (2, 0)]),
       (''v3'', [(0, 0), (5, 5)])]
      [''v1'', ''v2''] [''v3''] ''__main__'' 12
     = Inr ([(''v1'', - 1), (''v2'', - 1)], [(''v3'', - 1)])"
proof -
  have sel: "select_voyages [(''v1'', [(0 :: real, 0 :: real), (1, 0)]), (''v2'', [(0, 0), (1, 0), (2, 0)]),
       (''v3'', [(0, 0), (5, 5)])] [''v1'', ''v2'']
      = Inr [(''v1'', [(0, 0), (1, 0)]), (''v2'', [(0, 0), (1, 0), (2, 0)])]"
    "select_voyages [(''v1'', [(0 :: real, 0 :: real), (1, 0)]), (''v2'', [(0, 0), (1, 0), (2, 0)]),
       (''v3'', [(0, 0), (5, 5)])] [''v3''] = Inr [(''v3'', [(0, 0), (5, 5)])]"
    by (simp_all add: select_voyages_def dict_get_def dict_of_items_def dict_update_def)
  have prox: "calc_proximity_matrix (\<lambda>a b. Inr \<bar>real (length a) - real (length b)\<bar>)
      [(''v1'', [(0 :: real, 0 :: real), (1, 0)]), (''v2'', [(0, 0), (1, 0), (2, 0)])] ''__main__''
      = Inr (Some \<lparr>nrows = 2, ncols = 2, rows = [[0, 1], [1, 0]]\<rparr>)"
    by (simp add: calc_proximity_matrix_def create_inputs_def number_combinations_def
        flat_index_def int_of_half_def py_setitem_def dict_get_def proximity_parallel_def np_zeros_def
        np_set_def np_iadd_def np_transpose_def
        upt_rec[of _ "numeral _"] upt_rec[of _ "Suc _"] numeral_2_eq_2)
  have db: "dbscan 5 12 \<lparr>nrows = 2, ncols = 2, rows = [[0, 1], [1, 0]]\<rparr> = Inr [- 1, - 1]"
    by (simp add: dbscan_def dbscan_labels_def dense_def
        upt_rec[of _ "numeral _"] upt_rec[of _ "Suc _"] numeral_2_eq_2)
  have single: "predict_single_voyage (dbscan 5) (\<lambda>a b. Inr \<bar>real (length a) - real (length b)\<bar>)
      [(''v1'', [(0 :: real, 0 :: real), (1, 0)]), (''v2'', [(0, 0), (1, 0), (2, 0)])]
      \<lparr>nrows = 2, ncols = 2, rows = [[0, 1], [1, 0]]\<rparr> [(0, 0), (5, 5)] 12 = Inr (- 1)"
    by (simp add: predict_single_voyage_def calc_extra_distance_def expand_distance_matrix_def
        np_append_axis0_def np_append_axis1_def expand_dims_row_def expand_dims_col_def
        py_last_def dbscan_def dbscan_labels_def dense_def
        upt_rec[of _ "numeral _"] upt_rec[of _ "Suc _"] numeral_3_eq_3)
  show ?thesis
    by (simp add: predict_voyages_def sel prox db single dict_of_items_def dict_update_def)
qed


text \<open>
  Claim C6. The confusion matrix is to be computed over the union of the train and test
  identifiers. The hold-out evaluation does so; \<open>do_k_fold_validation\<close> does not. With
  the voyages \<open>v1\<close>, \<open>v2\<close> for training and \<open>v3\<close> for testing, and \<open>Pair\<close> in the place of
  \<^verbatim>\<open>confusion_matrix\<close> to show its two arguments, the fold compares one label with one
  label, the hold-out evaluation three with three.
\<close>

theorem do_k_fold_validation_drops_train_ids:
  "do_k_fold_validation Pair (dbscan 5) (\<lambda>a b. Inr \<bar>real (length a) - real (length b)\<bar>)
      [(''v1'', [(0 :: real, 0 :: real), (1, 0)]), (''v2'', [(0, 0), (1, 0), (2, 0)]),
       (''v3'', [(0, 0), (5, 5)])]
      [''v1'', ''v2''] [''v3''] [(''v1'', 0), (''v2'', 0), (''v3'', 1)] ''__main__''
     = Inr ([1], [1])
   \<and> holdout_validation Pair (dbscan 5) (\<lambda>a b. Inr \<bar>real (length a) - real (length b)\<bar>)
      [(''v1'', [(0 :: real, 0 :: real), (1, 0)]), (''v2'', [(0, 0), (1, 0), (2, 0)]),
       (''v3'', [(0, 0), (5, 5)])]
      [''v1'', ''v2''] [''v3''] [(''v1'', 0), (''v2'', 0), (''v3'', 1)] ''__main__''
     = Inr ([0, 0, 1], [1, 1, 1])"
  by (simp add: do_k_fold_validation_def holdout_validation_def predict_voyages_example
      compare_with_oracle_def make_binary_class_def dict_of_items_def dict_update_def dict_get_def)

end
